theory Spec2Isabelle
  imports Complex_Main "HOL-Library.Product_Lexorder"
begin

section \<open>Data model (types/index.ts)\<close>

text \<open>
  Timestamps. The store writes every timestamp with \<open>now()\<close>, an ISO-8601 UTC string of
  fixed width, and compares them as text in SQL and through \<open>Date\<close> in TypeScript. Both
  orders are the order of the instants, so a timestamp is modelled by its instant in
  milliseconds since the epoch. A nullable column is an \<open>option\<close>.
\<close>

type_synonym timestamp = int

datatype TaskStatus = Pending | InProgress | Completed | Failed | Cancelled

datatype TaskPriority = Low | Medium | High | Critical

text \<open>
  Values of the open metadata map (\<open>Record<string, unknown>\<close>, stored as JSON).
  \<open>JTime t\<close> is a JSON string that \<open>Date.parse\<close> reads as the instant \<open>t\<close>;
  \<open>JStr s\<close> is any other string.
\<close>

datatype json =
    JNull
  | JBool bool
  | JNum int
  | JStr string
  | JTime timestamp
  | JArr "json list"
  | JObj "(string \<times> json) list"

type_synonym metadata = "string \<rightharpoonup> json"

record Task =
  tid :: string
  project_id :: "string option"
  parent_id :: "string option"
  plan_id :: "string option"
  task_list_id :: "string option"
  title :: string
  description :: "string option"
  status :: TaskStatus
  priority :: TaskPriority
  agent_id :: "string option"
  assigned_to :: "string option"
  session_id :: "string option"
  working_dir :: "string option"
  tags :: "string list"
  metadata :: metadata
  version :: int
  locked_by :: "string option"
  locked_at :: "timestamp option"
  created_at :: timestamp
  updated_at :: timestamp
  completed_at :: "timestamp option"

text \<open>
  \<open>UpdateTaskInput\<close>: every field but \<open>version\<close> is optional. \<open>None\<close> is
  \<open>undefined\<close> (the field is omitted). For a nullable column the provided value is
  itself an option, so that an explicit \<open>null\<close> (\<open>Some None\<close>) differs from an
  omitted field.
\<close>

record UpdateTaskInput =
  in_title :: "string option"
  in_description :: "string option option"
  in_status :: "TaskStatus option"
  in_priority :: "TaskPriority option"
  in_assigned_to :: "string option option"
  in_tags :: "string list option"
  in_metadata :: "metadata option"
  in_plan_id :: "string option option"
  in_task_list_id :: "string option option"
  in_version :: int

record LockResult =
  success :: bool
  lr_locked_by :: "string option"
  lr_locked_at :: "timestamp option"
  lr_error :: "string option"

text \<open>
  The errors that the operations throw: the classes of types/index.ts, and the error of the
  database driver for a statement that fails, with its message.
\<close>

datatype error =
    TaskNotFoundError string
  | VersionConflictError string int int
  | LockError string string
  | DependencyCycleError string string
  | SQLiteError string

section \<open>The store (db/database.ts, db/tasks.ts)\<close>

text \<open>
  A table is the list of its rows. \<open>task_dependencies\<close> holds the pairs
  \<open>(task_id, depends_on)\<close>, \<open>task_tags\<close> the pairs \<open>(task_id, tag)\<close>. Of the tables
  \<open>plans\<close> and \<open>task_lists\<close> the store keeps the \<open>id\<close> column, which is what the
  foreign keys \<open>tasks.plan_id\<close> and \<open>tasks.task_list_id\<close> refer to. The connection runs
  with \<open>PRAGMA foreign_keys = ON\<close>. The columns \<open>project_id\<close> and \<open>parent_id\<close> are
  written by no operation modelled here, so the table of projects is left out.

  An operation reads the clock once: its calls of \<open>now()\<close> and \<open>Date.now()\<close> return the
  same instant, which is a parameter of the operation.
\<close>

record Database =
  tasks :: "Task list"
  task_dependencies :: "(string \<times> string) list"
  task_tags :: "(string \<times> string) list"
  plans :: "string list"
  task_lists :: "string list"

definition LOCK_EXPIRY_MINUTES :: int where
  "LOCK_EXPIRY_MINUTES = 30"

text \<open>\<open>isLockExpired(lockedAt)\<close>, read at the clock value \<open>nowMs\<close> (\<open>Date.now()\<close>).\<close>

definition isLockExpired :: "timestamp option \<Rightarrow> int \<Rightarrow> bool" where
  "isLockExpired lockedAt nowMs =
     (case lockedAt of
        None \<Rightarrow> True
      | Some lockTime \<Rightarrow> nowMs - lockTime > LOCK_EXPIRY_MINUTES * 60 * 1000)"

definition lockExpiryCutoff :: "int \<Rightarrow> timestamp" where
  "lockExpiryCutoff nowMs = nowMs - LOCK_EXPIRY_MINUTES * 60 * 1000"

text \<open>
  \<open>UPDATE tasks SET ... WHERE ...\<close>: every row that satisfies the condition is replaced,
  and the number of such rows is \<open>result.changes\<close>.
\<close>

definition sqlUpdate :: "(Task \<Rightarrow> bool) \<Rightarrow> (Task \<Rightarrow> Task) \<Rightarrow> Database \<Rightarrow> Database \<times> nat" where
  "sqlUpdate cond setf d =
     (d\<lparr>tasks := map (\<lambda>r. if cond r then setf r else r) (tasks d)\<rparr>,
      length (filter cond (tasks d)))"

text \<open>The comparison \<open>locked_at < ?\<close> of SQL: false on \<open>NULL\<close>.\<close>

definition sqlLess :: "timestamp option \<Rightarrow> timestamp \<Rightarrow> bool" where
  "sqlLess a b = (case a of None \<Rightarrow> False | Some x \<Rightarrow> x < b)"

definition clearExpiredLocks :: "int \<Rightarrow> Database \<Rightarrow> Database" where
  "clearExpiredLocks nowMs d =
     fst (sqlUpdate (\<lambda>r. locked_at r \<noteq> None \<and> sqlLess (locked_at r) (lockExpiryCutoff nowMs))
            (\<lambda>r. r\<lparr>locked_by := None, locked_at := None\<rparr>) d)"

definition getTask :: "string \<Rightarrow> Database \<Rightarrow> Task option" where
  "getTask i d = find (\<lambda>r. tid r = i) (tasks d)"

text \<open>\<open>INSERT OR IGNORE INTO task_tags\<close> for every non-empty tag.\<close>

fun insertTaskTags :: "string \<Rightarrow> string list \<Rightarrow> (string \<times> string) list \<Rightarrow> (string \<times> string) list" where
  "insertTaskTags taskId [] tt = tt"
| "insertTaskTags taskId (tag # rest) tt =
     insertTaskTags taskId rest
       (if tag \<noteq> [] \<and> (taskId, tag) \<notin> set tt then tt @ [(taskId, tag)] else tt)"

definition replaceTaskTags :: "string \<Rightarrow> string list \<Rightarrow> Database \<Rightarrow> Database" where
  "replaceTaskTags taskId tgs d =
     d\<lparr>task_tags := insertTaskTags taskId tgs (filter (\<lambda>p. fst p \<noteq> taskId) (task_tags d))\<rparr>"

text \<open>
  The \<open>SET\<close> clause that \<open>updateTask\<close> builds: \<open>version = version + 1\<close>,
  \<open>updated_at = now()\<close>, then one assignment for each field of the input that is not
  \<open>undefined\<close>, and \<open>completed_at = now()\<close> when the input sets the status to
  \<open>completed\<close>.
\<close>

definition updateSets :: "UpdateTaskInput \<Rightarrow> timestamp \<Rightarrow> Task \<Rightarrow> Task" where
  "updateSets inp ts r =
     r\<lparr> version := version r + 1,
        updated_at := ts,
        title := (case in_title inp of None \<Rightarrow> title r | Some v \<Rightarrow> v),
        description := (case in_description inp of None \<Rightarrow> description r | Some v \<Rightarrow> v),
        status := (case in_status inp of None \<Rightarrow> status r | Some v \<Rightarrow> v),
        completed_at := (if in_status inp = Some Completed then Some ts else completed_at r),
        priority := (case in_priority inp of None \<Rightarrow> priority r | Some v \<Rightarrow> v),
        assigned_to := (case in_assigned_to inp of None \<Rightarrow> assigned_to r | Some v \<Rightarrow> v),
        tags := (case in_tags inp of None \<Rightarrow> tags r | Some v \<Rightarrow> v),
        metadata := (case in_metadata inp of None \<Rightarrow> metadata r | Some v \<Rightarrow> v),
        plan_id := (case in_plan_id inp of None \<Rightarrow> plan_id r | Some v \<Rightarrow> v),
        task_list_id := (case in_task_list_id inp of None \<Rightarrow> task_list_id r | Some v \<Rightarrow> v) \<rparr>"

text \<open>
  The foreign key of a column that an \<open>UPDATE\<close> assigns: the new value is \<open>NULL\<close> or
  the id of a row of the parent table. A column that the \<open>SET\<close> clause does not name is
  not checked.
\<close>

definition foreignKeyHolds :: "string list \<Rightarrow> string option option \<Rightarrow> bool" where
  "foreignKeyHolds parentIds assigned =
     (case assigned of
        None \<Rightarrow> True
      | Some None \<Rightarrow> True
      | Some (Some k) \<Rightarrow> k \<in> set parentIds)"

text \<open>
  \<open>updateTask(id, input)\<close> at the clock value \<open>ts\<close>. The result is the thrown error
  or the value of the final \<open>getTask(id)\<close>, together with the store afterwards. When the
  \<open>UPDATE\<close> assigns a \<open>plan_id\<close> or a \<open>task_list_id\<close> that names no row, the
  statement fails with SQLite's foreign key error and changes nothing.
\<close>

definition updateTask ::
  "string \<Rightarrow> UpdateTaskInput \<Rightarrow> timestamp \<Rightarrow> Database \<Rightarrow> (error + Task option) \<times> Database" where
  "updateTask i inp ts d =
     (case getTask i d of
        None \<Rightarrow> (Inl (TaskNotFoundError i), d)
      | Some task \<Rightarrow>
          if version task \<noteq> in_version inp
          then (Inl (VersionConflictError i (in_version inp) (version task)), d)
          else if \<not> (foreignKeyHolds (plans d) (in_plan_id inp)
                      \<and> foreignKeyHolds (task_lists d) (in_task_list_id inp))
          then (Inl (SQLiteError ''FOREIGN KEY constraint failed''), d)
          else
            (case sqlUpdate (\<lambda>r. tid r = i \<and> version r = in_version inp) (updateSets inp ts) d of
               (d1, changes) \<Rightarrow>
                 if changes = 0
                 then (Inl (VersionConflictError i (in_version inp)
                              (case getTask i d1 of None \<Rightarrow> - 1 | Some current \<Rightarrow> version current)), d1)
                 else
                   (let d2 = (case in_tags inp of None \<Rightarrow> d1 | Some tgs \<Rightarrow> replaceTaskTags i tgs d1)
                    in (Inr (getTask i d2), d2))))"


subsection \<open>Lease operations\<close>

text \<open>JavaScript truthiness of a \<open>string | null | undefined\<close>: the empty string is falsy.\<close>

definition truthy :: "string option \<Rightarrow> bool" where
  "truthy s = (case s of None \<Rightarrow> False | Some v \<Rightarrow> v \<noteq> [])"

text \<open>
  \<open>completeTask(id, agentId?)\<close> at the clock value \<open>nowMs\<close>. \<open>blocked\<close> is the
  owner named by the \<open>LockError\<close> when the ownership check fires.
\<close>

definition completeTask ::
  "string \<Rightarrow> string option \<Rightarrow> int \<Rightarrow> Database \<Rightarrow> (error + Task option) \<times> Database" where
  "completeTask i agentId nowMs d =
     (case getTask i d of
        None \<Rightarrow> (Inl (TaskNotFoundError i), d)
      | Some task \<Rightarrow>
          (let blocked =
             (case locked_by task of
                None \<Rightarrow> None
              | Some owner \<Rightarrow>
                  if truthy agentId \<and> truthy (locked_by task) \<and> locked_by task \<noteq> agentId
                     \<and> \<not> isLockExpired (locked_at task) nowMs
                  then Some owner else None)
           in case blocked of
                Some owner \<Rightarrow> (Inl (LockError i owner), d)
              | None \<Rightarrow>
                  (let d1 = fst (sqlUpdate (\<lambda>r. tid r = i)
                                   (\<lambda>r. r\<lparr> status := Completed, locked_by := None, locked_at := None,
                                            completed_at := Some nowMs, version := version r + 1,
                                            updated_at := nowMs \<rparr>) d)
                   in (Inr (getTask i d1), d1))))"

text \<open>\<open>lockTask(id, agentId)\<close> at the clock value \<open>nowMs\<close>.\<close>

definition lockTask ::
  "string \<Rightarrow> string \<Rightarrow> int \<Rightarrow> Database \<Rightarrow> (error + LockResult) \<times> Database" where
  "lockTask i agentId nowMs d =
     (case getTask i d of
        None \<Rightarrow> (Inl (TaskNotFoundError i), d)
      | Some task \<Rightarrow>
          if locked_by task = Some agentId \<and> \<not> isLockExpired (locked_at task) nowMs
          then (Inr \<lparr> success = True, lr_locked_by = Some agentId,
                      lr_locked_at = locked_at task, lr_error = None \<rparr>, d)
          else
            (case sqlUpdate
                    (\<lambda>r. tid r = i \<and> (locked_by r = None \<or> locked_by r = Some agentId
                                        \<or> sqlLess (locked_at r) (lockExpiryCutoff nowMs)))
                    (\<lambda>r. r\<lparr> locked_by := Some agentId, locked_at := Some nowMs,
                             version := version r + 1, updated_at := nowMs \<rparr>) d of
               (d1, changes) \<Rightarrow>
                 (let granted = (Inr \<lparr> success = True, lr_locked_by = Some agentId,
                                       lr_locked_at = Some nowMs, lr_error = None \<rparr>, d1)
                  in if changes = 0
                     then (case getTask i d1 of
                             None \<Rightarrow> (Inl (TaskNotFoundError i), d1)
                           | Some current \<Rightarrow>
                               (case locked_by current of
                                  None \<Rightarrow> granted
                                | Some owner \<Rightarrow>
                                    if owner \<noteq> [] \<and> \<not> isLockExpired (locked_at current) nowMs
                                    then (Inr \<lparr> success = False, lr_locked_by = Some owner,
                                                lr_locked_at = locked_at current,
                                                lr_error = Some (''Task is locked by '' @ owner) \<rparr>, d1)
                                    else granted))
                     else granted)))"

subsection \<open>Dependencies\<close>

text \<open>
  The loop of \<open>wouldCreateCycle\<close>: \<open>queue.shift()\<close> takes the head, the rows
  \<open>SELECT depends_on FROM task_dependencies WHERE task_id = current\<close> are pushed at the end.
\<close>

function wouldCreateCycleLoop ::
  "string \<Rightarrow> (string \<times> string) list \<Rightarrow> string set \<Rightarrow> string list \<Rightarrow> bool" where
  "wouldCreateCycleLoop taskId deps visited [] = False"
| "wouldCreateCycleLoop taskId deps visited (current # queue) =
     (if current = taskId then True
      else if current \<in> visited then wouldCreateCycleLoop taskId deps visited queue
      else wouldCreateCycleLoop taskId deps (insert current visited)
             (queue @ map snd (filter (\<lambda>e. fst e = current) deps)))"
  by pat_completeness auto
termination
proof (relation "(\<lambda>(t, deps, vis, q). card ((snd ` set deps \<union> set q) - vis)) <*mlex*>
                 measure (\<lambda>(t, deps, vis, q). length q)", goal_cases)
  case 1
  show ?case by (simp add: wf_mlex)
next
  case (2 taskId deps visited current queue)
  have "(snd ` set deps \<union> set queue) - visited
          \<subseteq> (snd ` set deps \<union> set (current # queue)) - visited"
    by auto
  then have "card ((snd ` set deps \<union> set queue) - visited)
               \<le> card ((snd ` set deps \<union> set (current # queue)) - visited)"
    by (intro card_mono) auto
  then show ?case by (auto intro!: mlex_leq)
next
  case (3 taskId deps visited current queue)
  let ?new = "(snd ` set deps \<union> set (queue @ map snd (filter (\<lambda>e. fst e = current) deps)))
                - insert current visited"
  let ?old = "(snd ` set deps \<union> set (current # queue)) - visited"
  have "?new \<subseteq> ?old - {current}" by force
  moreover have "current \<in> ?old" using 3 by simp
  ultimately have "?new \<subset> ?old" by blast
  then have "card ?new < card ?old"
    by (intro psubset_card_mono) auto
  then show ?case by (auto intro!: mlex_less)
qed

definition wouldCreateCycle :: "string \<Rightarrow> string \<Rightarrow> Database \<Rightarrow> bool" where
  "wouldCreateCycle taskId dependsOn d =
     wouldCreateCycleLoop taskId (task_dependencies d) {} [dependsOn]"

text \<open>
  \<open>addDependency(taskId, dependsOn)\<close>. \<open>INSERT OR IGNORE\<close> skips a row that is already
  there (the primary key) and a row with \<open>task_id = depends_on\<close> (the table's CHECK).
\<close>

definition addDependency :: "string \<Rightarrow> string \<Rightarrow> Database \<Rightarrow> (error + unit) \<times> Database" where
  "addDependency taskId dependsOn d =
     (if getTask taskId d = None then (Inl (TaskNotFoundError taskId), d)
      else if getTask dependsOn d = None then (Inl (TaskNotFoundError dependsOn), d)
      else if wouldCreateCycle taskId dependsOn d
           then (Inl (DependencyCycleError taskId dependsOn), d)
      else (Inr (),
            d\<lparr>task_dependencies :=
                 (if (taskId, dependsOn) \<in> set (task_dependencies d) \<or> taskId = dependsOn
                  then task_dependencies d
                  else task_dependencies d @ [(taskId, dependsOn)])\<rparr>))"

text \<open>
  A client that issues the calls \<open>addDependency(t, dep)\<close> of a list in order and stops at
  the first one that throws.
\<close>

fun addDependencies :: "(string \<times> string) list \<Rightarrow> Database \<Rightarrow> error + Database" where
  "addDependencies [] d = Inr d"
| "addDependencies ((t, dep) # rest) d =
     (case addDependency t dep d of
        (Inl e, _) \<Rightarrow> Inl e
      | (Inr _, d1) \<Rightarrow> addDependencies rest d1)"

subsection \<open>Listing\<close>

text \<open>
  \<open>TaskFilter\<close>. A single status or priority is the one-element list. \<open>None\<close> is an
  omitted field; \<open>f_parent_id = Some None\<close> is an explicit \<open>null\<close>.
\<close>

record TaskFilter =
  f_project_id :: "string option"
  f_parent_id :: "string option option"
  f_status :: "TaskStatus list option"
  f_priority :: "TaskPriority list option"
  f_assigned_to :: "string option"
  f_agent_id :: "string option"
  f_session_id :: "string option"
  f_tags :: "string list option"
  f_plan_id :: "string option"
  f_task_list_id :: "string option"
  f_limit :: "int option"
  f_offset :: "int option"

text \<open>The condition \<open>column = ?\<close> that a truthy filter field adds; no condition otherwise.\<close>

definition columnEquals :: "string option \<Rightarrow> string option \<Rightarrow> bool" where
  "columnEquals wanted column = (if truthy wanted then column = wanted else True)"

definition filterMatches :: "TaskFilter \<Rightarrow> Database \<Rightarrow> Task \<Rightarrow> bool" where
  "filterMatches f d r =
     (columnEquals (f_project_id f) (project_id r)
      \<and> (case f_parent_id f of
           None \<Rightarrow> True
         | Some None \<Rightarrow> parent_id r = None
         | Some (Some p) \<Rightarrow> parent_id r = Some p)
      \<and> (case f_status f of None \<Rightarrow> True | Some ss \<Rightarrow> status r \<in> set ss)
      \<and> (case f_priority f of None \<Rightarrow> True | Some ps \<Rightarrow> priority r \<in> set ps)
      \<and> columnEquals (f_assigned_to f) (assigned_to r)
      \<and> columnEquals (f_agent_id f) (agent_id r)
      \<and> columnEquals (f_session_id f) (session_id r)
      \<and> (case f_tags f of
           None \<Rightarrow> True
         | Some tgs \<Rightarrow> tgs = [] \<or> list_ex (\<lambda>tag. (tid r, tag) \<in> set (task_tags d)) tgs)
      \<and> columnEquals (f_plan_id f) (plan_id r)
      \<and> columnEquals (f_task_list_id f) (task_list_id r))"

text \<open>The \<open>CASE priority WHEN ... END\<close> of the \<open>ORDER BY\<close> clause.\<close>

fun priorityRank :: "TaskPriority \<Rightarrow> nat" where
  "priorityRank Critical = 0"
| "priorityRank High = 1"
| "priorityRank Medium = 2"
| "priorityRank Low = 3"

text \<open>
  \<open>ORDER BY CASE priority ... END, created_at DESC\<close>. Rows with equal keys, which SQL may
  return in any order, keep the order of the table.
\<close>

definition orderKey :: "Task \<Rightarrow> nat \<times> int" where
  "orderKey r = (priorityRank (priority r), - created_at r)"

text \<open>\<open>LIMIT ? OFFSET ?\<close>: a negative limit is no limit, a negative offset is 0.\<close>

definition sqlLimitOffset :: "int \<Rightarrow> int \<Rightarrow> 'a list \<Rightarrow> 'a list" where
  "sqlLimitOffset limitN off rows =
     (let rest = drop (nat off) rows in if limitN < 0 then rest else take (nat limitN) rest)"

text \<open>
  \<open>listTasks(filter)\<close> at the clock value \<open>nowMs\<close>: the rows returned and the store
  after \<open>clearExpiredLocks\<close>. \<open>filter.limit || 100\<close> and \<open>filter.offset || 0\<close> take the
  default for an omitted value and for 0.
\<close>

definition listTasks :: "TaskFilter \<Rightarrow> int \<Rightarrow> Database \<Rightarrow> Task list \<times> Database" where
  "listTasks f nowMs d =
     (let d1 = clearExpiredLocks nowMs d;
          limitVal = (case f_limit f of None \<Rightarrow> 100 | Some l \<Rightarrow> if l = 0 then 100 else l);
          offsetVal = (case f_offset f of None \<Rightarrow> 0 | Some off \<Rightarrow> off)
      in (sqlLimitOffset limitVal offsetVal
            (sort_key orderKey (filter (filterMatches f d1) (tasks d1))), d1))"


section \<open>Synchronisation with a Claude task list (lib/sync-utils.ts, lib/claude-tasks.ts)\<close>

datatype SyncPrefer = Local | Remote

record SyncResult =
  pushed :: nat
  pulled :: nat
  errors :: "string list"

datatype ClaudeStatus = ClaudePending | ClaudeInProgress | ClaudeCompleted

record ClaudeTask =
  ct_id :: string
  ct_subject :: string
  ct_description :: string
  ct_activeForm :: string
  ct_status :: ClaudeStatus
  ct_owner :: string
  ct_blocks :: "string list"
  ct_blockedBy :: "string list"
  ct_metadata :: metadata

text \<open>
  A file of the task list directory: what \<open>readJsonFile\<close> returns for it (\<open>None\<close>
  when it does not parse) and its modification time \<open>statSync(path).mtimeMs\<close>, a number
  of milliseconds that need not be whole.
\<close>

record MirrorFile =
  content :: "ClaudeTask option"
  mtimeMs :: rat

text \<open>
  The task list directory: its \<open>*.json\<close> entries by file name, in the order of
  \<open>readdirSync\<close>, and the numbers held by \<open>.highwatermark\<close> and \<open>.prefix-counter\<close>
  (\<open>None\<close> when the file is absent or \<open>parseInt\<close> gives \<open>NaN\<close>).
\<close>

record TaskListDir =
  json_files :: "(string \<times> MirrorFile) list"
  highwatermark_file :: "int option"
  prefix_counter_file :: "int option"

record TaskPrefixConfig =
  prefix :: string
  start_from :: "int option"

subsection \<open>Numbers as decimal strings\<close>

function natToString :: "nat \<Rightarrow> string" where
  "natToString n =
     (if n < 10 then [''0123456789'' ! n]
      else natToString (n div 10) @ [''0123456789'' ! (n mod 10)])"
  by pat_completeness auto
termination
  by (relation "measure (\<lambda>n. n)") auto

declare natToString.simps [simp del]

text \<open>\<open>String(n)\<close> for an integer \<open>n\<close>.\<close>

definition numberToString :: "int \<Rightarrow> string" where
  "numberToString n = (if n < 0 then CHR ''-'' # natToString (nat (- n)) else natToString (nat n))"

text \<open>The message of each error class (\<open>e.message\<close>).\<close>

fun errorMessage :: "error \<Rightarrow> string" where
  "errorMessage (TaskNotFoundError taskId) = ''Task not found: '' @ taskId"
| "errorMessage (VersionConflictError taskId expectedVersion actualVersion) =
     ''Version conflict for task '' @ taskId @ '': expected '' @ numberToString expectedVersion
       @ '', got '' @ numberToString actualVersion"
| "errorMessage (LockError taskId lockedBy) = ''Task '' @ taskId @ '' is locked by '' @ lockedBy"
| "errorMessage (DependencyCycleError taskId dependsOn) =
     ''Adding dependency '' @ taskId @ '' -> '' @ dependsOn @ '' would create a cycle''"
| "errorMessage (SQLiteError message) = message"

subsection \<open>sync-utils.ts\<close>

definition readHighWaterMark :: "TaskListDir \<Rightarrow> int" where
  "readHighWaterMark dir = (case highwatermark_file dir of None \<Rightarrow> 1 | Some v \<Rightarrow> v)"

definition writeHighWaterMark :: "TaskListDir \<Rightarrow> int \<Rightarrow> TaskListDir" where
  "writeHighWaterMark dir v = dir\<lparr>highwatermark_file := Some v\<rparr>"

definition getFileMtimeMs :: "TaskListDir \<Rightarrow> string \<Rightarrow> rat option" where
  "getFileMtimeMs dir f = map_option mtimeMs (map_of (json_files dir) f)"

text \<open>\<open>parseTimestamp(value)\<close>; the argument is \<open>None\<close> for \<open>undefined\<close>.\<close>

fun parseTimestamp :: "json option \<Rightarrow> int option" where
  "parseTimestamp (Some (JTime t)) = Some t"
| "parseTimestamp _ = None"

text \<open>The list that \<open>appendSyncConflict\<close> reads: \<open>metadata["sync_conflicts"]\<close> when it is an array.\<close>

definition syncConflicts :: "metadata \<Rightarrow> json list" where
  "syncConflicts m = (case m ''sync_conflicts'' of Some (JArr xs) \<Rightarrow> xs | _ \<Rightarrow> [])"

definition appendSyncConflict :: "metadata \<Rightarrow> json \<Rightarrow> nat \<Rightarrow> metadata" where
  "appendSyncConflict m conflict limit =
     m(''sync_conflicts'' \<mapsto> JArr (take limit (conflict # syncConflicts m)))"

subsection \<open>claude-tasks.ts\<close>

text \<open>Writing \<open>path\<close> at the clock value \<open>nowMs\<close>: an existing entry is replaced in place.\<close>

fun writeFile :: "string \<Rightarrow> MirrorFile \<Rightarrow> (string \<times> MirrorFile) list \<Rightarrow> (string \<times> MirrorFile) list" where
  "writeFile path mf [] = [(path, mf)]"
| "writeFile path mf ((p, old) # rest) =
     (if p = path then (p, mf) # rest else (p, old) # writeFile path mf rest)"

definition writeClaudeTask :: "TaskListDir \<Rightarrow> ClaudeTask \<Rightarrow> int \<Rightarrow> TaskListDir" where
  "writeClaudeTask dir task nowMs =
     dir\<lparr>json_files :=
           writeFile (ct_id task @ ''.json'') \<lparr>content = Some task, mtimeMs = of_int nowMs\<rparr>
             (json_files dir)\<rparr>"

fun toClaudeStatus :: "TaskStatus \<Rightarrow> ClaudeStatus" where
  "toClaudeStatus Pending = ClaudePending"
| "toClaudeStatus InProgress = ClaudeInProgress"
| "toClaudeStatus Completed = ClaudeCompleted"
| "toClaudeStatus Failed = ClaudeCompleted"
| "toClaudeStatus Cancelled = ClaudeCompleted"

fun priorityName :: "TaskPriority \<Rightarrow> string" where
  "priorityName Low = ''low''"
| "priorityName Medium = ''medium''"
| "priorityName High = ''high''"
| "priorityName Critical = ''critical''"

definition readPrefixCounter :: "TaskListDir \<Rightarrow> int" where
  "readPrefixCounter dir = (case prefix_counter_file dir of None \<Rightarrow> 0 | Some v \<Rightarrow> v)"

definition formatPrefixedSubject :: "string \<Rightarrow> string \<Rightarrow> int \<Rightarrow> string" where
  "formatPrefixedSubject ttl pfx counter =
     (let digits = numberToString counter;
          padded = replicate (5 - length digits) CHR ''0'' @ digits
      in pfx @ ''-'' @ padded @ '': '' @ ttl)"

definition taskToClaudeTask :: "Task \<Rightarrow> string \<Rightarrow> metadata option \<Rightarrow> ClaudeTask" where
  "taskToClaudeTask task claudeTaskId existingMeta =
     \<lparr> ct_id = claudeTaskId,
       ct_subject = title task,
       ct_description = (case description task of None \<Rightarrow> [] | Some v \<Rightarrow> v),
       ct_activeForm = [],
       ct_status = toClaudeStatus (status task),
       ct_owner = (let creator = (case agent_id task of None \<Rightarrow> [] | Some a \<Rightarrow> a)
                   in case assigned_to task of
                        None \<Rightarrow> creator
                      | Some a \<Rightarrow> if a \<noteq> [] then a else creator),
       ct_blocks = [],
       ct_blockedBy = [],
       ct_metadata =
         (case existingMeta of None \<Rightarrow> Map.empty | Some m \<Rightarrow> m)
           (''todos_id'' \<mapsto> JStr (tid task),
            ''priority'' \<mapsto> JStr (priorityName (priority task)),
            ''todos_updated_at'' \<mapsto> JTime (updated_at task),
            ''todos_version'' \<mapsto> JNum (version task)) \<rparr>"

text \<open>
  The map \<open>existingByTodosId\<close>: every file that parses and whose \<open>metadata.todos_id\<close> is
  truthy is entered under that value, a later file replacing an earlier one. Only an
  entry under a string can be found by \<open>get(task.id)\<close>.
\<close>

definition existingByTodosId :: "TaskListDir \<Rightarrow> (string \<rightharpoonup> ClaudeTask \<times> rat option)" where
  "existingByTodosId dir =
     fold (\<lambda>(f, mf) m.
             case content mf of
               None \<Rightarrow> m
             | Some ct \<Rightarrow>
                 (case ct_metadata ct ''todos_id'' of
                    Some (JStr k) \<Rightarrow> if k \<noteq> [] then m(k \<mapsto> (ct, getFileMtimeMs dir f)) else m
                  | _ \<Rightarrow> m))
          (json_files dir) Map.empty"

text \<open>
  The test \<open>lastSyncedAt && localUpdatedAt && remoteUpdatedAt && localUpdatedAt > lastSyncedAt
  && remoteUpdatedAt > lastSyncedAt\<close>; a number is truthy when it is not 0.
\<close>

definition conflictDetected :: "int option \<Rightarrow> int option \<Rightarrow> rat option \<Rightarrow> bool" where
  "conflictDetected lastSyncedAt localUpdatedAt remoteUpdatedAt =
     (case lastSyncedAt of
        None \<Rightarrow> False
      | Some l \<Rightarrow>
          (case localUpdatedAt of
             None \<Rightarrow> False
           | Some loc \<Rightarrow>
               (case remoteUpdatedAt of
                  None \<Rightarrow> False
                | Some rem \<Rightarrow> l \<noteq> 0 \<and> loc \<noteq> 0 \<and> rem \<noteq> 0 \<and> loc > l \<and> rem > of_int l)))"

text \<open>The time value of \<open>new Date(ms)\<close>: the number truncated to an integer.\<close>

definition dateOfMs :: "rat \<Rightarrow> timestamp" where
  "dateOfMs ms = (if 0 \<le> ms then \<lfloor>ms\<rfloor> else \<lceil>ms\<rceil>)"

text \<open>
  The conflict object that the push pass records. \<open>remote_updated_at\<close> is the file's
  modification time, and is left out when that is \<open>null\<close> or 0.
\<close>

definition pushConflict :: "SyncPrefer \<Rightarrow> timestamp \<Rightarrow> rat option \<Rightarrow> int \<Rightarrow> json" where
  "pushConflict prefer localUpdatedAt remoteUpdatedAt nowMs =
     JObj ([(''agent'', JStr ''claude''),
            (''direction'', JStr ''push''),
            (''prefer'', JStr (case prefer of Local \<Rightarrow> ''local'' | Remote \<Rightarrow> ''remote'')),
            (''local_updated_at'', JTime localUpdatedAt)]
           @ (case remoteUpdatedAt of
                None \<Rightarrow> []
              | Some m \<Rightarrow> if m = 0 then [] else [(''remote_updated_at'', JTime (dateOfMs m))])
           @ [(''detected_at'', JTime nowMs)])"

text \<open>The input \<open>{ version, metadata }\<close>.\<close>

definition metadataInput :: "int \<Rightarrow> metadata \<Rightarrow> UpdateTaskInput" where
  "metadataInput v m =
     \<lparr> in_title = None, in_description = None, in_status = None, in_priority = None,
       in_assigned_to = None, in_tags = None, in_metadata = Some m, in_plan_id = None,
       in_task_list_id = None, in_version = v \<rparr>"

text \<open>The variables that the loop of the push pass changes.\<close>

record PushState =
  ps_db :: Database
  ps_dir :: TaskListDir
  ps_hwm :: int
  ps_prefixCounter :: int
  ps_pushed :: nat
  ps_errors :: "string list"

text \<open>The \<open>catch\<close> block of the loop.\<close>

definition pushCaught :: "Task \<Rightarrow> error \<Rightarrow> PushState \<Rightarrow> PushState" where
  "pushCaught task e s =
     s\<lparr>ps_errors := ps_errors s @ [''push '' @ tid task @ '': '' @ errorMessage e]\<rparr>"

text \<open>
  One iteration of the loop of \<open>pushToClaudeTaskList\<close> for \<open>task\<close>, at the clock value
  \<open>nowMs\<close>. \<open>existingMap\<close> is the map built before the loop.
\<close>

definition pushTask ::
  "SyncPrefer \<Rightarrow> TaskPrefixConfig option \<Rightarrow> (string \<rightharpoonup> ClaudeTask \<times> rat option) \<Rightarrow> int
   \<Rightarrow> Task \<Rightarrow> PushState \<Rightarrow> PushState" where
  "pushTask prefer prefixConfig existingMap nowMs task s =
     (case existingMap (tid task) of
        Some (existing, mtime) \<Rightarrow>
          (let lastSyncedAt = parseTimestamp (ct_metadata existing ''todos_updated_at'');
               localUpdatedAt = Some (updated_at task);
               remoteUpdatedAt = mtime;
               conflict = conflictDetected lastSyncedAt localUpdatedAt remoteUpdatedAt
           in if conflict \<and> prefer = Remote
              then
                (let newMeta = appendSyncConflict (metadata task)
                                 (pushConflict prefer (updated_at task) remoteUpdatedAt nowMs) 5
                 in case updateTask (tid task) (metadataInput (version task) newMeta) nowMs (ps_db s) of
                      (Inl e, d1) \<Rightarrow> pushCaught task e (s\<lparr>ps_db := d1\<rparr>)
                    | (Inr _, d1) \<Rightarrow>
                        s\<lparr>ps_db := d1,
                          ps_errors := ps_errors s @ [''conflict push '' @ tid task @ '': remote newer'']\<rparr>)
              else
                (let updated = (taskToClaudeTask task (ct_id existing) (Some (ct_metadata existing)))
                                 \<lparr> ct_blocks := ct_blocks existing,
                                   ct_blockedBy := ct_blockedBy existing,
                                   ct_activeForm := ct_activeForm existing \<rparr>;
                     s1 = s\<lparr>ps_dir := writeClaudeTask (ps_dir s) updated nowMs\<rparr>
                 in if conflict
                    then
                      (case getTask (tid task) (ps_db s1) of
                         None \<Rightarrow> s1\<lparr>ps_pushed := ps_pushed s1 + 1\<rparr>
                       | Some latest \<Rightarrow>
                           (let newMeta = appendSyncConflict (metadata latest)
                                            (pushConflict prefer (updated_at latest) remoteUpdatedAt nowMs) 5
                            in case updateTask (tid latest) (metadataInput (version latest) newMeta)
                                      nowMs (ps_db s1) of
                                 (Inl e, d1) \<Rightarrow> pushCaught task e (s1\<lparr>ps_db := d1\<rparr>)
                               | (Inr _, d1) \<Rightarrow> s1\<lparr>ps_db := d1, ps_pushed := ps_pushed s1 + 1\<rparr>))
                    else s1\<lparr>ps_pushed := ps_pushed s1 + 1\<rparr>))
      | None \<Rightarrow>
          (let claudeId = numberToString (ps_hwm s);
               ct = taskToClaudeTask task claudeId None;
               counter = (case prefixConfig of None \<Rightarrow> ps_prefixCounter s
                          | Some cfg \<Rightarrow> ps_prefixCounter s + 1);
               ct1 = (case prefixConfig of None \<Rightarrow> ct
                      | Some cfg \<Rightarrow> ct\<lparr>ct_subject := formatPrefixedSubject (title task) (prefix cfg) counter\<rparr>);
               s1 = s\<lparr>ps_hwm := ps_hwm s + 1, ps_prefixCounter := counter,
                      ps_dir := writeClaudeTask (ps_dir s) ct1 nowMs\<rparr>
           in case getTask (tid task) (ps_db s1) of
                None \<Rightarrow> s1\<lparr>ps_pushed := ps_pushed s1 + 1\<rparr>
              | Some current \<Rightarrow>
                  (case updateTask (tid task)
                          (metadataInput (version current)
                             ((metadata current)(''claude_task_id'' \<mapsto> JStr claudeId)))
                          nowMs (ps_db s1) of
                     (Inl e, d1) \<Rightarrow> pushCaught task e (s1\<lparr>ps_db := d1\<rparr>)
                   | (Inr _, d1) \<Rightarrow> s1\<lparr>ps_db := d1, ps_pushed := ps_pushed s1 + 1\<rparr>)))"

text \<open>The filter \<open>{ project_id: projectId }\<close> of the push pass.\<close>

definition projectFilter :: "string option \<Rightarrow> TaskFilter" where
  "projectFilter projectId =
     \<lparr> f_project_id = (if truthy projectId then projectId else None), f_parent_id = None,
       f_status = None, f_priority = None, f_assigned_to = None, f_agent_id = None,
       f_session_id = None, f_tags = None, f_plan_id = None, f_task_list_id = None,
       f_limit = None, f_offset = None \<rparr>"

text \<open>
  \<open>pushToClaudeTaskList(taskListId, projectId, options)\<close> at the clock value \<open>nowMs\<close>.
  \<open>dir\<close> is the directory of the task list (\<open>None\<close> when it does not exist yet),
  \<open>prefixConfig\<close> the value of \<open>getTaskPrefixConfig()\<close>. The result, the directory
  and the store afterwards are returned.
\<close>

definition pushToClaudeTaskList ::
  "TaskListDir option \<Rightarrow> string option \<Rightarrow> SyncPrefer option \<Rightarrow> TaskPrefixConfig option \<Rightarrow> int
   \<Rightarrow> Database \<Rightarrow> SyncResult \<times> TaskListDir \<times> Database" where
  "pushToClaudeTaskList dir projectId preferOpt prefixConfig nowMs d =
     (let dir0 = (case dir of
                    None \<Rightarrow> \<lparr>json_files = [], highwatermark_file = None, prefix_counter_file = None\<rparr>
                  | Some x \<Rightarrow> x);
          listed = listTasks (projectFilter projectId) nowMs d;
          existingMap = existingByTodosId dir0;
          hwm = readHighWaterMark dir0;
          prefer = (case preferOpt of None \<Rightarrow> Remote | Some p \<Rightarrow> p);
          prefixCounter0 = (case prefixConfig of None \<Rightarrow> 0 | Some cfg \<Rightarrow> readPrefixCounter dir0);
          prefixCounter =
            (case prefixConfig of
               None \<Rightarrow> prefixCounter0
             | Some cfg \<Rightarrow>
                 (case start_from cfg of
                    None \<Rightarrow> prefixCounter0
                  | Some sf \<Rightarrow> if sf \<noteq> 0 \<and> prefixCounter0 < sf then sf - 1 else prefixCounter0));
          s = fold (pushTask prefer prefixConfig existingMap nowMs) (fst listed)
                \<lparr> ps_db = snd listed, ps_dir = dir0, ps_hwm = hwm,
                  ps_prefixCounter = prefixCounter, ps_pushed = 0, ps_errors = [] \<rparr>;
          dir1 = writeHighWaterMark (ps_dir s) (ps_hwm s);
          dir2 = (case prefixConfig of None \<Rightarrow> dir1
                  | Some cfg \<Rightarrow> dir1\<lparr>prefix_counter_file := Some (ps_prefixCounter s)\<rparr>)
      in (\<lparr>pushed = ps_pushed s, pulled = 0, errors = ps_errors s\<rparr>, dir2, ps_db s))"

text \<open>
  The test of the loop for a task of the listing: the task has a mirror record and the
  conflict test holds for it.
\<close>

definition pushConflictDetected :: "(string \<rightharpoonup> ClaudeTask \<times> rat option) \<Rightarrow> Task \<Rightarrow> bool" where
  "pushConflictDetected existingMap task =
     (case existingMap (tid task) of
        None \<Rightarrow> False
      | Some (existing, mtime) \<Rightarrow>
          conflictDetected (parseTimestamp (ct_metadata existing ''todos_updated_at''))
            (Some (updated_at task)) mtime)"

text \<open>The record \<open>updated\<close> that the loop writes over an existing mirror record.\<close>

definition updatedRecord :: "Task \<Rightarrow> ClaudeTask \<Rightarrow> ClaudeTask" where
  "updatedRecord task existing =
     (taskToClaudeTask task (ct_id existing) (Some (ct_metadata existing)))
       \<lparr> ct_blocks := ct_blocks existing,
         ct_blockedBy := ct_blockedBy existing,
         ct_activeForm := ct_activeForm existing \<rparr>"

text \<open>The error line that the loop adds when it keeps the mirror's side of a conflict.\<close>

definition conflictMessage :: "Task \<Rightarrow> string" where
  "conflictMessage task = ''conflict push '' @ tid task @ '': remote newer''"


section \<open>Sample data\<close>

text \<open>
  The row that \<open>createTask({ title: i })\<close> inserts at the instant 1000 when the new id
  is \<open>i\<close>, and a store that holds three such tasks, one plan P and one task list L.
\<close>

definition sampleTask :: "string \<Rightarrow> Task" where
  "sampleTask i =
     \<lparr> tid = i, project_id = None, parent_id = None, plan_id = None, task_list_id = None,
       title = i, description = None, status = Pending, priority = Medium, agent_id = None,
       assigned_to = None, session_id = None, working_dir = None, tags = [],
       metadata = Map.empty, version = 1, locked_by = None, locked_at = None,
       created_at = 1000, updated_at = 1000, completed_at = None \<rparr>"

definition sampleDb :: Database where
  "sampleDb = \<lparr> tasks = [sampleTask ''A'', sampleTask ''B'', sampleTask ''C''],
                task_dependencies = [], task_tags = [], plans = [''P''], task_lists = [''L''] \<rparr>"

text \<open>The input \<open>{ title, version }\<close>.\<close>

definition titleInput :: "string \<Rightarrow> int \<Rightarrow> UpdateTaskInput" where
  "titleInput ttl v =
     \<lparr> in_title = Some ttl, in_description = None, in_status = None, in_priority = None,
       in_assigned_to = None, in_tags = None, in_metadata = None, in_plan_id = None,
       in_task_list_id = None, in_version = v \<rparr>"

text \<open>The input \<open>{ plan_id, version }\<close>.\<close>

definition planInput :: "string \<Rightarrow> int \<Rightarrow> UpdateTaskInput" where
  "planInput p v =
     \<lparr> in_title = None, in_description = None, in_status = None, in_priority = None,
       in_assigned_to = None, in_tags = None, in_metadata = None, in_plan_id = Some (Some p),
       in_task_list_id = None, in_version = v \<rparr>"

text \<open>The sample store after \<open>addDependency(B, A)\<close> and \<open>addDependency(C, B)\<close>.\<close>

definition chainDb :: Database where
  "chainDb = sampleDb\<lparr>task_dependencies := [(''B'', ''A''), (''C'', ''B'')]\<rparr>"


text \<open>A store whose only task, T, is leased to \<open>owner\<close> since the instant \<open>since\<close>.\<close>

definition lockedTask :: "string \<Rightarrow> timestamp \<Rightarrow> Task" where
  "lockedTask owner since = (sampleTask ''T'')\<lparr>locked_by := Some owner, locked_at := Some since\<rparr>"

definition lockedDb :: "string \<Rightarrow> timestamp \<Rightarrow> Database" where
  "lockedDb owner since = \<lparr> tasks = [lockedTask owner since], task_dependencies = [], task_tags = [],
                          plans = [], task_lists = [] \<rparr>"

text \<open>
  Task A after it was mirrored as record 1 of a task list: the mapping is stored in its
  metadata, the file \<open>1.json\<close> holds the record that the push pass writes for it, and the
  high-water mark is 2. Neither side was changed since: the record's \<open>todos_updated_at\<close> is
  the task's \<open>updated_at\<close>, and the file was not modified after that instant.
\<close>

definition mirroredTask :: Task where
  "mirroredTask = (sampleTask ''A'')\<lparr>metadata := [''claude_task_id'' \<mapsto> JStr ''1''], version := 2\<rparr>"

definition mirrorRecord :: ClaudeTask where
  "mirrorRecord = taskToClaudeTask mirroredTask ''1'' None"

definition syncedDir :: TaskListDir where
  "syncedDir = \<lparr> json_files = [(''1.json'', \<lparr>content = Some mirrorRecord, mtimeMs = 1000\<rparr>)],
                 highwatermark_file = Some 2, prefix_counter_file = None \<rparr>"

definition syncedDb :: Database where
  "syncedDb = \<lparr> tasks = [mirroredTask], task_dependencies = [], task_tags = [],
                plans = [], task_lists = [] \<rparr>"




text \<open>
  The sample store and a task list directory after a first push at the instant 2000, into
  a directory that did not exist: task \<open>i\<close> was mirrored as record \<open>c\<close>, written with the
  task's \<open>updated_at\<close> of that moment (1000), and the mapping was then stored in the task's
  metadata, which moved the task to version 2 and its \<open>updated_at\<close> to 2000.
\<close>

definition pushedTask :: "string \<Rightarrow> string \<Rightarrow> Task" where
  "pushedTask i c = (sampleTask i)\<lparr>metadata := [''claude_task_id'' \<mapsto> JStr c], version := 2,
                                  updated_at := 2000\<rparr>"

definition pushedRecord :: "string \<Rightarrow> string \<Rightarrow> ClaudeTask" where
  "pushedRecord i c = taskToClaudeTask (sampleTask i) c None"

definition pushedFile :: "string \<Rightarrow> string \<Rightarrow> string \<times> MirrorFile" where
  "pushedFile i c = (c @ ''.json'', \<lparr>content = Some (pushedRecord i c), mtimeMs = 2000\<rparr>)"

definition pushedDb :: Database where
  "pushedDb = sampleDb\<lparr>tasks := [pushedTask ''A'' ''1'', pushedTask ''B'' ''2'', pushedTask ''C'' ''3'']\<rparr>"

definition pushedDir :: TaskListDir where
  "pushedDir = \<lparr> json_files = [pushedFile ''A'' ''1'', pushedFile ''B'' ''2'', pushedFile ''C'' ''3''],
                 highwatermark_file = Some 4, prefix_counter_file = None \<rparr>"

text \<open>A store with \<open>n\<close> tasks, named by the numbers below \<open>n\<close>.\<close>

definition manyDb :: "nat \<Rightarrow> Database" where
  "manyDb n = \<lparr> tasks = map (\<lambda>k. sampleTask (natToString k)) [0..<n],
                task_dependencies = [], task_tags = [], plans = [], task_lists = [] \<rparr>"

section \<open>Properties of the versioned update\<close>

lemma find_sqlUpdate_Some:
  assumes "find (\<lambda>r. tid r = i) rows = Some task" and "\<And>r. tid (g r) = tid r"
  shows "find (\<lambda>r. tid r = i) (map (\<lambda>r. if c r then g r else r) rows)
           = Some (if c task then g task else task)"
  using assms by (induction rows) (auto split: if_splits)

lemma find_sqlUpdate_None:
  assumes "find (\<lambda>r. tid r = i) rows = None" and "\<And>r. tid (g r) = tid r"
  shows "find (\<lambda>r. tid r = i) (map (\<lambda>r. if c r then g r else r) rows) = None"
  using assms by (induction rows) (auto split: if_splits)

lemma find_sqlUpdate_other:
  assumes "\<And>r. c r \<Longrightarrow> tid r \<noteq> j" and "\<And>r. tid (g r) = tid r"
  shows "find (\<lambda>r. tid r = j) (map (\<lambda>r. if c r then g r else r) rows)
           = find (\<lambda>r. tid r = j) rows"
  using assms by (induction rows) (auto split: if_splits)

lemma find_Some_filter:
  "find P rows = Some x \<Longrightarrow> Q x \<Longrightarrow> (\<And>r. Q r \<Longrightarrow> P r \<Longrightarrow> C r) \<Longrightarrow> P x \<Longrightarrow> filter C rows \<noteq> []"
  by (induction rows) (auto split: if_splits)

lemma map_no_match: "filter c rows = [] \<Longrightarrow> map (\<lambda>r. if c r then g r else r) rows = rows"
  by (induction rows) (auto split: if_splits)

lemma tid_updateSets [simp]: "tid (updateSets inp ts r) = tid r"
  by (simp add: updateSets_def)

lemma getTask_replaceTaskTags [simp]: "getTask i (replaceTaskTags j tgs d) = getTask i d"
  by (simp add: getTask_def replaceTaskTags_def)

lemma foreignKeyHolds_omitted [simp]: "foreignKeyHolds parentIds None"
  by (simp add: foreignKeyHolds_def)

lemma updateTask_success:
  assumes "getTask i d = Some task" and "version task = in_version inp"
    and "foreignKeyHolds (plans d) (in_plan_id inp)"
    and "foreignKeyHolds (task_lists d) (in_task_list_id inp)"
  shows "updateTask i inp ts d =
           (Inr (Some (updateSets inp ts task)),
            (case in_tags inp of None \<Rightarrow> (\<lambda>x. x) | Some tgs \<Rightarrow> replaceTaskTags i tgs)
              (fst (sqlUpdate (\<lambda>r. tid r = i \<and> version r = in_version inp) (updateSets inp ts) d)))"
proof -
  let ?c = "\<lambda>r. tid r = i \<and> version r = in_version inp"
  have f: "find (\<lambda>r. tid r = i) (tasks d) = Some task"
    using assms(1) by (simp add: getTask_def)
  have "tid task = i" using f by (auto dest: find_Some_iff[THEN iffD1])
  then have "task \<in> set (filter ?c (tasks d))"
    using f assms(2) by (auto simp: find_Some_iff in_set_conv_nth)
  then have ne: "length (filter ?c (tasks d)) \<noteq> 0" by (auto simp del: set_filter)
  have g: "getTask i (fst (sqlUpdate ?c (updateSets inp ts) d)) = Some (updateSets inp ts task)"
    using find_sqlUpdate_Some[OF f, of "updateSets inp ts" ?c] assms(2) \<open>tid task = i\<close>
    by (simp add: getTask_def sqlUpdate_def)
  show ?thesis
    using assms ne g
    by (auto simp: updateTask_def sqlUpdate_def Let_def split: option.splits prod.splits)
qed

lemma updateTask_foreign_key:
  assumes "getTask i d = Some task" and "version task = in_version inp"
    and "\<not> (foreignKeyHolds (plans d) (in_plan_id inp)
            \<and> foreignKeyHolds (task_lists d) (in_task_list_id inp))"
  shows "updateTask i inp ts d = (Inl (SQLiteError ''FOREIGN KEY constraint failed''), d)"
  using assms by (auto simp: updateTask_def)

lemma updateTask_conflict_unchanged:
  assumes "updateTask i inp ts d = (Inl (VersionConflictError a b c), d')"
  shows "d' = d"
proof (cases "getTask i d")
  case None
  with assms show ?thesis by (simp add: updateTask_def)
next
  case (Some task)
  show ?thesis
  proof (cases "version task = in_version inp")
    case True
    show ?thesis
    proof (cases "foreignKeyHolds (plans d) (in_plan_id inp)
                  \<and> foreignKeyHolds (task_lists d) (in_task_list_id inp)")
      case fk: True
      from updateTask_success[OF Some True, of ts] fk assms show ?thesis by simp
    next
      case False
      from updateTask_foreign_key[OF Some True False, of ts] assms show ?thesis by simp
    qed
  next
    case False
    with Some assms show ?thesis by (simp add: updateTask_def)
  qed
qed

text \<open>
  Claim C2, amended. For every call \<open>updateTask(id, patch, expectedVersion)\<close>: when no
  task has the id, the call fails with \<open>TaskNotFoundError\<close>; when the task exists with
  another version, it fails with \<open>VersionConflictError\<close> carrying the expected version and
  the task's current version; when the versions agree and each \<open>plan_id\<close> and
  \<open>task_list_id\<close> that the patch provides is \<open>null\<close> or names an existing row, the update
  succeeds, the stored version is exactly \<open>expectedVersion + 1\<close>, and every later update
  that presents the old version fails with a version conflict; when the versions agree but
  the patch provides a \<open>plan_id\<close> or a \<open>task_list_id\<close> that names no row, the call fails
  with the foreign key error of the database and the store is left as it was.
\<close>

theorem updateTask_version_protocol:
  "(getTask i d = None \<longrightarrow> updateTask i inp ts d = (Inl (TaskNotFoundError i), d))
   \<and> (\<forall>task. getTask i d = Some task \<and> version task \<noteq> in_version inp \<longrightarrow>
         updateTask i inp ts d
           = (Inl (VersionConflictError i (in_version inp) (version task)), d))
   \<and> (\<forall>task. getTask i d = Some task \<and> version task = in_version inp
              \<and> foreignKeyHolds (plans d) (in_plan_id inp)
              \<and> foreignKeyHolds (task_lists d) (in_task_list_id inp) \<longrightarrow>
         (\<exists>task' d'. updateTask i inp ts d = (Inr (Some task'), d')
            \<and> getTask i d' = Some task'
            \<and> version task' = in_version inp + 1
            \<and> (\<forall>inp2 ts2. in_version inp2 = in_version inp \<longrightarrow>
                  updateTask i inp2 ts2 d'
                    = (Inl (VersionConflictError i (in_version inp) (in_version inp + 1)), d'))))
   \<and> (\<forall>task. getTask i d = Some task \<and> version task = in_version inp
              \<and> \<not> (foreignKeyHolds (plans d) (in_plan_id inp)
                     \<and> foreignKeyHolds (task_lists d) (in_task_list_id inp)) \<longrightarrow>
         updateTask i inp ts d = (Inl (SQLiteError ''FOREIGN KEY constraint failed''), d))"
proof (intro conjI allI impI)
  assume "getTask i d = None"
  then show "updateTask i inp ts d = (Inl (TaskNotFoundError i), d)"
    by (simp add: updateTask_def)
next
  fix task
  assume "getTask i d = Some task \<and> version task \<noteq> in_version inp"
  then show "updateTask i inp ts d
               = (Inl (VersionConflictError i (in_version inp) (version task)), d)"
    by (simp add: updateTask_def)
next
  fix task
  assume a: "getTask i d = Some task \<and> version task = in_version inp
             \<and> foreignKeyHolds (plans d) (in_plan_id inp)
             \<and> foreignKeyHolds (task_lists d) (in_task_list_id inp)"
  let ?c = "\<lambda>r. tid r = i \<and> version r = in_version inp"
  let ?d1 = "fst (sqlUpdate ?c (updateSets inp ts) d)"
  let ?d' = "(case in_tags inp of None \<Rightarrow> (\<lambda>x. x) | Some tgs \<Rightarrow> replaceTaskTags i tgs) ?d1"
  let ?t' = "updateSets inp ts task"
  have run: "updateTask i inp ts d = (Inr (Some ?t'), ?d')"
    using a by (simp add: updateTask_success)
  have f: "find (\<lambda>r. tid r = i) (tasks d) = Some task"
    using a by (simp add: getTask_def)
  have "getTask i ?d1 = Some ?t'"
    using find_sqlUpdate_Some[OF f, of "updateSets inp ts" ?c] a f
    by (auto simp: getTask_def sqlUpdate_def find_Some_iff)
  then have g: "getTask i ?d' = Some ?t'"
    by (cases "in_tags inp") simp_all
  have v: "version ?t' = in_version inp + 1"
    using a by (simp add: updateSets_def)
  have later: "updateTask i inp2 ts2 ?d'
                 = (Inl (VersionConflictError i (in_version inp) (in_version inp + 1)), ?d')"
    if "in_version inp2 = in_version inp" for inp2 ts2
    using g v that by (simp add: updateTask_def)
  show "\<exists>task' d'. updateTask i inp ts d = (Inr (Some task'), d')
            \<and> getTask i d' = Some task'
            \<and> version task' = in_version inp + 1
            \<and> (\<forall>inp2 ts2. in_version inp2 = in_version inp \<longrightarrow>
                  updateTask i inp2 ts2 d'
                    = (Inl (VersionConflictError i (in_version inp) (in_version inp + 1)), d'))"
    using run g v later by blast
next
  fix task
  assume a: "getTask i d = Some task \<and> version task = in_version inp
             \<and> \<not> (foreignKeyHolds (plans d) (in_plan_id inp)
                    \<and> foreignKeyHolds (task_lists d) (in_task_list_id inp))"
  then have g: "getTask i d = Some task" and v: "version task = in_version inp"
    and nfk: "\<not> (foreignKeyHolds (plans d) (in_plan_id inp)
                  \<and> foreignKeyHolds (task_lists d) (in_task_list_id inp))"
    by simp_all
  show "updateTask i inp ts d = (Inl (SQLiteError ''FOREIGN KEY constraint failed''), d)"
    by (rule updateTask_foreign_key[OF g v nfk])
qed

text \<open>
  Claim C3. When \<open>updateTask(id, patch, v)\<close> fails with \<open>VersionConflictError\<close>, the
  store is left as it was: no field of any task record, and no other table, is modified.
\<close>

theorem updateTask_conflict_no_change:
  "fst (updateTask i inp ts d) = Inl (VersionConflictError a b c)
   \<Longrightarrow> snd (updateTask i inp ts d) = d
       \<and> (\<forall>j. getTask j (snd (updateTask i inp ts d)) = getTask j d)"
  using updateTask_conflict_unchanged[of i inp ts d a b c "snd (updateTask i inp ts d)"]
  by (cases "updateTask i inp ts d") simp

lemma getTask_sqlUpdate_other:
  "j \<noteq> i \<Longrightarrow> (\<And>r. tid (g r) = tid r)
   \<Longrightarrow> getTask j (fst (sqlUpdate (\<lambda>r. tid r = i \<and> c r) g d)) = getTask j d"
  using find_sqlUpdate_other[of "\<lambda>r. tid r = i \<and> c r" j g "tasks d"]
  by (simp add: getTask_def sqlUpdate_def)

text \<open>
  Claim C9. After a successful \<open>updateTask\<close>, the stored task has its version
  incremented and \<open>updated_at\<close> stamped; each field of the input is written when it is
  provided and keeps its value when it is omitted; \<open>completed_at\<close> changes only when the
  input sets the status to \<open>completed\<close>; the fields that an input cannot name, the other
  tasks and the dependency table are unchanged, and the tag table is unchanged unless tags
  are provided.
\<close>

theorem updateTask_frame:
  assumes "getTask i d = Some t" and "updateTask i inp ts d = (Inr res, d')"
  shows "\<exists>t'. res = Some t' \<and> getTask i d' = Some t'
           \<and> version t' = version t + 1 \<and> updated_at t' = ts
           \<and> tid t' = tid t \<and> project_id t' = project_id t \<and> parent_id t' = parent_id t
           \<and> agent_id t' = agent_id t \<and> session_id t' = session_id t
           \<and> working_dir t' = working_dir t \<and> created_at t' = created_at t
           \<and> locked_by t' = locked_by t \<and> locked_at t' = locked_at t
           \<and> title t' = (case in_title inp of None \<Rightarrow> title t | Some v \<Rightarrow> v)
           \<and> description t' = (case in_description inp of None \<Rightarrow> description t | Some v \<Rightarrow> v)
           \<and> status t' = (case in_status inp of None \<Rightarrow> status t | Some v \<Rightarrow> v)
           \<and> priority t' = (case in_priority inp of None \<Rightarrow> priority t | Some v \<Rightarrow> v)
           \<and> assigned_to t' = (case in_assigned_to inp of None \<Rightarrow> assigned_to t | Some v \<Rightarrow> v)
           \<and> tags t' = (case in_tags inp of None \<Rightarrow> tags t | Some v \<Rightarrow> v)
           \<and> metadata t' = (case in_metadata inp of None \<Rightarrow> metadata t | Some v \<Rightarrow> v)
           \<and> plan_id t' = (case in_plan_id inp of None \<Rightarrow> plan_id t | Some v \<Rightarrow> v)
           \<and> task_list_id t' = (case in_task_list_id inp of None \<Rightarrow> task_list_id t | Some v \<Rightarrow> v)
           \<and> completed_at t' = (if in_status inp = Some Completed then Some ts else completed_at t)
           \<and> (\<forall>j. j \<noteq> i \<longrightarrow> getTask j d' = getTask j d)
           \<and> task_dependencies d' = task_dependencies d
           \<and> (in_tags inp = None \<longrightarrow> task_tags d' = task_tags d)"
proof -
  have ver: "version t = in_version inp"
    using assms by (auto simp: updateTask_def split: if_splits)
  have fk: "foreignKeyHolds (plans d) (in_plan_id inp)"
    "foreignKeyHolds (task_lists d) (in_task_list_id inp)"
    using assms by (auto simp: updateTask_def split: if_splits)
  let ?c = "\<lambda>r. tid r = i \<and> version r = in_version inp"
  let ?d1 = "fst (sqlUpdate ?c (updateSets inp ts) d)"
  let ?t' = "updateSets inp ts t"
  from updateTask_success[OF assms(1) ver fk, of ts] assms(2)
  have res: "res = Some ?t'"
    and d': "d' = (case in_tags inp of None \<Rightarrow> (\<lambda>x. x) | Some tgs \<Rightarrow> replaceTaskTags i tgs) ?d1"
    by simp_all
  have f: "find (\<lambda>r. tid r = i) (tasks d) = Some t"
    using assms(1) by (simp add: getTask_def)
  have "getTask i ?d1 = Some ?t'"
    using find_sqlUpdate_Some[OF f, of "updateSets inp ts" ?c] ver f
    by (auto simp: getTask_def sqlUpdate_def find_Some_iff)
  then have g: "getTask i d' = Some ?t'"
    unfolding d' by (cases "in_tags inp") simp_all
  have others: "getTask j d' = getTask j d" if "j \<noteq> i" for j
    unfolding d' using getTask_sqlUpdate_other[OF that, of "updateSets inp ts"]
    by (cases "in_tags inp") simp_all
  have deps: "task_dependencies d' = task_dependencies d"
    unfolding d' by (cases "in_tags inp") (simp_all add: sqlUpdate_def replaceTaskTags_def)
  have tt: "in_tags inp = None \<longrightarrow> task_tags d' = task_tags d"
    unfolding d' by (simp add: sqlUpdate_def)
  show ?thesis
    apply (rule exI[of _ ?t'])
    apply (intro conjI)
    using res g others deps tt apply (simp_all add: updateSets_def)
    done
qed


text \<open>
  The four cases of the amended C2 on the sample store: an unknown id, a stale version, the
  move of task A to the existing plan P, from version 1 to 2, followed by a second update
  that still presents version 1, and the move of task A to a plan Q that does not exist.
\<close>

theorem updateTask_version_protocol_witness:
  "getTask ''Z'' sampleDb = None
   \<and> updateTask ''Z'' (titleInput ''A2'' 1) 2000 sampleDb = (Inl (TaskNotFoundError ''Z''), sampleDb)
   \<and> getTask ''A'' sampleDb = Some (sampleTask ''A'')
   \<and> version (sampleTask ''A'') \<noteq> in_version (titleInput ''A2'' 7)
   \<and> updateTask ''A'' (titleInput ''A2'' 7) 2000 sampleDb
         = (Inl (VersionConflictError ''A'' 7 1), sampleDb)
   \<and> version (sampleTask ''A'') = in_version (planInput ''P'' 1)
   \<and> foreignKeyHolds (plans sampleDb) (in_plan_id (planInput ''P'' 1))
   \<and> foreignKeyHolds (task_lists sampleDb) (in_task_list_id (planInput ''P'' 1))
   \<and> (\<exists>task' d'. updateTask ''A'' (planInput ''P'' 1) 2000 sampleDb = (Inr (Some task'), d')
          \<and> getTask ''A'' d' = Some task' \<and> version task' = 2
          \<and> updateTask ''A'' (titleInput ''A3'' 1) 3000 d'
                = (Inl (VersionConflictError ''A'' 1 2), d'))
   \<and> version (sampleTask ''A'') = in_version (planInput ''Q'' 1)
   \<and> \<not> (foreignKeyHolds (plans sampleDb) (in_plan_id (planInput ''Q'' 1))
          \<and> foreignKeyHolds (task_lists sampleDb) (in_task_list_id (planInput ''Q'' 1)))
   \<and> updateTask ''A'' (planInput ''Q'' 1) 2000 sampleDb
         = (Inl (SQLiteError ''FOREIGN KEY constraint failed''), sampleDb)"
proof -
  have z: "getTask ''Z'' sampleDb = None"
    by (simp add: getTask_def sampleDb_def sampleTask_def)
  have a: "getTask ''A'' sampleDb = Some (sampleTask ''A'')"
    by (simp add: getTask_def sampleDb_def sampleTask_def)
  have v7: "version (sampleTask ''A'') \<noteq> in_version (titleInput ''A2'' 7)"
    by (simp add: sampleTask_def titleInput_def)
  have v1: "version (sampleTask ''A'') = in_version (planInput ''P'' 1)"
    by (simp add: sampleTask_def planInput_def)
  have fp: "foreignKeyHolds (plans sampleDb) (in_plan_id (planInput ''P'' 1))"
    by (simp add: foreignKeyHolds_def sampleDb_def planInput_def)
  have fl: "foreignKeyHolds (task_lists sampleDb) (in_task_list_id (planInput ''P'' 1))"
    by (simp add: planInput_def)
  have vq: "version (sampleTask ''A'') = in_version (planInput ''Q'' 1)"
    by (simp add: sampleTask_def planInput_def)
  have fq: "\<not> (foreignKeyHolds (plans sampleDb) (in_plan_id (planInput ''Q'' 1))
          \<and> foreignKeyHolds (task_lists sampleDb) (in_task_list_id (planInput ''Q'' 1)))"
    by (simp add: foreignKeyHolds_def sampleDb_def planInput_def)
  have i3: "in_version (titleInput ''A3'' 1) = in_version (planInput ''P'' 1)"
    by (simp add: titleInput_def planInput_def)
  have n: "updateTask ''Z'' (titleInput ''A2'' 1) 2000 sampleDb = (Inl (TaskNotFoundError ''Z''), sampleDb)"
    using updateTask_version_protocol[of "''Z''" sampleDb "titleInput ''A2'' 1" 2000,
            THEN conjunct1, rule_format, OF z] .
  have c: "updateTask ''A'' (titleInput ''A2'' 7) 2000 sampleDb
             = (Inl (VersionConflictError ''A'' 7 1), sampleDb)"
    using updateTask_version_protocol[of "''A''" sampleDb "titleInput ''A2'' 7" 2000,
            THEN conjunct2, THEN conjunct1, rule_format, OF conjI[OF a v7]]
    by (simp add: sampleTask_def titleInput_def)
  from updateTask_version_protocol[of "''A''" sampleDb "planInput ''P'' 1" 2000,
         THEN conjunct2, THEN conjunct2, THEN conjunct1, rule_format,
         OF conjI[OF a conjI[OF v1 conjI[OF fp fl]]]]
  obtain task' d' where s: "updateTask ''A'' (planInput ''P'' 1) 2000 sampleDb = (Inr (Some task'), d')"
    "getTask ''A'' d' = Some task'" "version task' = in_version (planInput ''P'' 1) + 1"
    "\<forall>inp2 ts2. in_version inp2 = in_version (planInput ''P'' 1) \<longrightarrow>
         updateTask ''A'' inp2 ts2 d'
           = (Inl (VersionConflictError ''A'' (in_version (planInput ''P'' 1))
                     (in_version (planInput ''P'' 1) + 1)), d')"
    by blast
  from s(4) i3 have l: "updateTask ''A'' (titleInput ''A3'' 1) 3000 d'
                = (Inl (VersionConflictError ''A'' 1 2), d')"
    by (simp add: planInput_def)
  from s(3) have "version task' = 2" by (simp add: planInput_def)
  with s(1,2) l have ok: "\<exists>task' d'. updateTask ''A'' (planInput ''P'' 1) 2000 sampleDb = (Inr (Some task'), d')
          \<and> getTask ''A'' d' = Some task' \<and> version task' = 2
          \<and> updateTask ''A'' (titleInput ''A3'' 1) 3000 d'
                = (Inl (VersionConflictError ''A'' 1 2), d')"
    by blast
  have q: "updateTask ''A'' (planInput ''Q'' 1) 2000 sampleDb
         = (Inl (SQLiteError ''FOREIGN KEY constraint failed''), sampleDb)"
    using updateTask_version_protocol[of "''A''" sampleDb "planInput ''Q'' 1" 2000,
            THEN conjunct2, THEN conjunct2, THEN conjunct2, rule_format,
            OF conjI[OF a conjI[OF vq fq]]] .
  show ?thesis by (intro conjI z n a v7 c v1 fp fl ok vq fq q)
qed

text \<open>
  Claim C2 as stated fails. Task A of the sample store has version 1 and the store has no
  plan Q. The call \<open>updateTask(A, { plan_id: Q, version: 1 })\<close> presents the current version,
  yet it does not succeed: the \<open>UPDATE\<close> violates the foreign key of \<open>tasks.plan_id\<close>, the
  database error is thrown, and the version of task A is still 1.
\<close>

theorem updateTask_dangling_plan_counterexample:
  "getTask ''A'' sampleDb = Some (sampleTask ''A'')
   \<and> version (sampleTask ''A'') = 1
   \<and> in_version (planInput ''Q'' 1) = 1
   \<and> in_plan_id (planInput ''Q'' 1) = Some (Some ''Q'')
   \<and> plans sampleDb = [''P'']
   \<and> updateTask ''A'' (planInput ''Q'' 1) 2000 sampleDb
         = (Inl (SQLiteError ''FOREIGN KEY constraint failed''), sampleDb)"
  by (simp add: updateTask_def getTask_def sampleDb_def sampleTask_def planInput_def
        foreignKeyHolds_def)

text \<open>C3 on the sample store: a stale update of task A changes nothing.\<close>

theorem updateTask_conflict_no_change_witness:
  "fst (updateTask ''A'' (titleInput ''A2'' 7) 2000 sampleDb) = Inl (VersionConflictError ''A'' 7 1)
   \<and> snd (updateTask ''A'' (titleInput ''A2'' 7) 2000 sampleDb) = sampleDb"
proof -
  have h: "fst (updateTask ''A'' (titleInput ''A2'' 7) 2000 sampleDb) = Inl (VersionConflictError ''A'' 7 1)"
    by (simp add: updateTask_def getTask_def sampleDb_def sampleTask_def titleInput_def)
  from updateTask_conflict_no_change[OF h] h show ?thesis by simp
qed

text \<open>C9 on the sample store: an update of the title of task A only.\<close>

theorem updateTask_frame_witness:
  "getTask ''A'' sampleDb = Some (sampleTask ''A'')
   \<and> (\<exists>t' d'. updateTask ''A'' (titleInput ''A2'' 1) 2000 sampleDb = (Inr (Some t'), d')
         \<and> title t' = ''A2'' \<and> version t' = 2 \<and> updated_at t' = 2000
         \<and> status t' = Pending \<and> priority t' = Medium \<and> completed_at t' = None
         \<and> getTask ''B'' d' = Some (sampleTask ''B''))"
proof -
  have a: "getTask ''A'' sampleDb = Some (sampleTask ''A'')"
    by (simp add: getTask_def sampleDb_def sampleTask_def)
  have b: "getTask ''B'' sampleDb = Some (sampleTask ''B'')"
    by (simp add: getTask_def sampleDb_def sampleTask_def)
  obtain res d' where r: "updateTask ''A'' (titleInput ''A2'' 1) 2000 sampleDb = (Inr res, d')"
    using updateTask_success[OF a, of "titleInput ''A2'' 1" 2000]
    by (simp add: sampleTask_def titleInput_def)
  from updateTask_frame[OF a r] obtain t' where
    "res = Some t'" "version t' = version (sampleTask ''A'') + 1" "updated_at t' = 2000"
    "title t' = (case in_title (titleInput ''A2'' 1) of None \<Rightarrow> title (sampleTask ''A'') | Some v \<Rightarrow> v)"
    "status t' = (case in_status (titleInput ''A2'' 1) of None \<Rightarrow> status (sampleTask ''A'') | Some v \<Rightarrow> v)"
    "priority t' = (case in_priority (titleInput ''A2'' 1) of None \<Rightarrow> priority (sampleTask ''A'') | Some v \<Rightarrow> v)"
    "completed_at t' = (if in_status (titleInput ''A2'' 1) = Some Completed then Some 2000 else completed_at (sampleTask ''A''))"
    "\<forall>j. j \<noteq> ''A'' \<longrightarrow> getTask j d' = getTask j sampleDb"
    by blast
  then show ?thesis
    using a b r by (simp add: sampleTask_def titleInput_def)
qed

section \<open>Properties of the dependency graph\<close>

lemma closed_rtrancl:
  assumes "(x, y) \<in> r\<^sup>*" and "x \<in> V" and "\<And>a b. a \<in> V \<Longrightarrow> (a, b) \<in> r \<Longrightarrow> b \<in> V"
  shows "y \<in> V"
  using assms(1)
proof (induction rule: rtrancl_induct)
  case base
  show ?case by (rule assms(2))
next
  case (step b c)
  from step.IH step.hyps(2) show ?case by (rule assms(3))
qed

lemma wouldCreateCycleLoop_complete:
  "\<not> wouldCreateCycleLoop taskId deps visited queue
   \<Longrightarrow> taskId \<notin> visited
   \<Longrightarrow> \<forall>a \<in> visited. \<forall>b. (a, b) \<in> set deps \<longrightarrow> b \<in> visited \<union> set queue
   \<Longrightarrow> x \<in> visited \<union> set queue
   \<Longrightarrow> (x, taskId) \<notin> (set deps)\<^sup>*"
proof (induction taskId deps visited queue rule: wouldCreateCycleLoop.induct)
  case (1 taskId deps visited)
  show ?case
  proof
    assume r: "(x, taskId) \<in> (set deps)\<^sup>*"
    have "x \<in> visited" using 1(4) by simp
    with r have "taskId \<in> visited"
    proof (rule closed_rtrancl)
      fix a b
      assume "a \<in> visited" and "(a, b) \<in> set deps"
      then show "b \<in> visited" using 1(3) by auto
    qed
    with 1(2) show False by simp
  qed
next
  case (2 taskId deps visited current queue)
  have ne: "current \<noteq> taskId" using 2(3) by (simp split: if_splits)
  show ?case
  proof (cases "current \<in> visited")
    case True
    have run: "\<not> wouldCreateCycleLoop taskId deps visited queue"
      using 2(3) True ne by simp
    have cl: "\<forall>a \<in> visited. \<forall>b. (a, b) \<in> set deps \<longrightarrow> b \<in> visited \<union> set queue"
      using 2(5) True by auto
    have "x \<in> visited \<union> set queue" using 2(6) True by auto
    with 2(1)[OF ne True run 2(4) cl] show ?thesis .
  next
    case False
    let ?q = "queue @ map snd (filter (\<lambda>e. fst e = current) deps)"
    have run: "\<not> wouldCreateCycleLoop taskId deps (insert current visited) ?q"
      using 2(3) False ne by simp
    have nv: "taskId \<notin> insert current visited" using ne 2(4) by simp
    have cl: "\<forall>a \<in> insert current visited. \<forall>b. (a, b) \<in> set deps \<longrightarrow>
                 b \<in> insert current visited \<union> set ?q"
    proof (intro ballI allI impI)
      fix a b
      assume a: "a \<in> insert current visited" and ab: "(a, b) \<in> set deps"
      show "b \<in> insert current visited \<union> set ?q"
      proof (cases "a = current")
        case True
        then have "b \<in> set (map snd (filter (\<lambda>e. fst e = current) deps))"
          using ab by force
        then show ?thesis by simp
      next
        case False
        then have "a \<in> visited" using a by simp
        then have "b \<in> visited \<union> set (current # queue)" using ab 2(5) by blast
        then show ?thesis by auto
      qed
    qed
    have "x \<in> insert current visited \<union> set ?q" using 2(6) by auto
    with 2(2)[OF ne False run nv cl] show ?thesis .
  qed
qed

lemma wouldCreateCycleLoop_sound:
  assumes "wouldCreateCycleLoop taskId deps visited queue"
  shows "\<exists>q \<in> set queue. (q, taskId) \<in> (set deps)\<^sup>*"
  using assms
proof (induction taskId deps visited queue rule: wouldCreateCycleLoop.induct)
  case (1 taskId deps visited)
  then show ?case by simp
next
  case (2 taskId deps visited current queue)
  show ?case
  proof (cases "current = taskId")
    case True
    then show ?thesis by auto
  next
    case ne: False
    show ?thesis
    proof (cases "current \<in> visited")
      case True
      have "wouldCreateCycleLoop taskId deps visited queue"
        using 2(3) ne True by simp
      from 2(1)[OF ne True this] show ?thesis by auto
    next
      case False
      have "wouldCreateCycleLoop taskId deps (insert current visited)
              (queue @ map snd (filter (\<lambda>e. fst e = current) deps))"
        using 2(3) ne False by simp
      from 2(2)[OF ne False this]
      obtain q where q: "q \<in> set (queue @ map snd (filter (\<lambda>e. fst e = current) deps))"
        "(q, taskId) \<in> (set deps)\<^sup>*" by auto
      show ?thesis
      proof (cases "q \<in> set queue")
        case True
        with q show ?thesis by auto
      next
        case False
        with q have "(current, q) \<in> set deps" by auto
        with q(2) have "(current, taskId) \<in> (set deps)\<^sup>*"
          by (meson converse_rtrancl_into_rtrancl)
        then show ?thesis by auto
      qed
    qed
  qed
qed

lemma wouldCreateCycle_iff:
  "wouldCreateCycle taskId dependsOn d \<longleftrightarrow> (dependsOn, taskId) \<in> (set (task_dependencies d))\<^sup>*"
proof
  assume "wouldCreateCycle taskId dependsOn d"
  then show "(dependsOn, taskId) \<in> (set (task_dependencies d))\<^sup>*"
    using wouldCreateCycleLoop_sound[of taskId "task_dependencies d" "{}" "[dependsOn]"]
    by (simp add: wouldCreateCycle_def)
next
  assume r: "(dependsOn, taskId) \<in> (set (task_dependencies d))\<^sup>*"
  show "wouldCreateCycle taskId dependsOn d"
  proof (rule ccontr)
    assume "\<not> wouldCreateCycle taskId dependsOn d"
    then have "(dependsOn, taskId) \<notin> (set (task_dependencies d))\<^sup>*"
      unfolding wouldCreateCycle_def
      by (rule wouldCreateCycleLoop_complete) simp_all
    with r show False by simp
  qed
qed

lemma addDependency_acyclic:
  assumes "acyclic (set (task_dependencies d))" and "addDependency t dep d = (Inr u, d')"
  shows "acyclic (set (task_dependencies d'))"
proof -
  have nc: "\<not> wouldCreateCycle t dep d" and
    d': "task_dependencies d' = (if (t, dep) \<in> set (task_dependencies d) \<or> t = dep
                  then task_dependencies d
                  else task_dependencies d @ [(t, dep)])"
    using assms(2) by (auto simp: addDependency_def split: if_splits)
  have "(dep, t) \<notin> (set (task_dependencies d))\<^sup>*"
    using nc by (simp add: wouldCreateCycle_iff)
  then have "acyclic (insert (t, dep) (set (task_dependencies d)))"
    using assms(1) by (simp add: acyclic_insert)
  then show ?thesis
    using assms(1) d' by (auto split: if_splits)
qed

lemma addDependencies_acyclic:
  assumes "acyclic (set (task_dependencies d))" and "addDependencies calls d = Inr d'"
  shows "acyclic (set (task_dependencies d'))"
  using assms
proof (induction calls arbitrary: d)
  case Nil
  then show ?case by simp
next
  case (Cons c calls)
  obtain t dep where c: "c = (t, dep)" by (cases c)
  from Cons.prems(2) c obtain u d1 where
    step: "addDependency t dep d = (Inr u, d1)" and rest: "addDependencies calls d1 = Inr d'"
    by (auto split: prod.splits sum.splits)
  from addDependency_acyclic[OF Cons.prems(1) step] rest show ?case
    by (rule Cons.IH)
qed

text \<open>
  Claim C4. \<open>addDependency\<close> never produces a cycle: after any sequence of successful
  calls that starts from an acyclic dependency table, the table is acyclic, that is, no task
  reaches itself along \<open>depends_on\<close> edges. A call between two existing tasks whose edge
  would close a cycle (\<open>taskId\<close> is reachable from \<open>dependsOn\<close>) fails with
  \<open>DependencyCycleError\<close> naming both endpoints and leaves the store unchanged, and
  \<open>addDependency(x, x)\<close> always fails.
\<close>

theorem addDependency_never_cyclic:
  "(acyclic (set (task_dependencies d)) \<and> addDependencies calls d = Inr d'
      \<longrightarrow> acyclic (set (task_dependencies d')) \<and> (\<forall>x. (x, x) \<notin> (set (task_dependencies d'))\<^sup>+))
   \<and> (getTask t d \<noteq> None \<and> getTask dep d \<noteq> None \<and> (dep, t) \<in> (set (task_dependencies d))\<^sup>*
      \<longrightarrow> addDependency t dep d = (Inl (DependencyCycleError t dep), d))
   \<and> (\<exists>e. addDependency x x d = (Inl e, d))"
proof (intro conjI impI)
  assume a: "acyclic (set (task_dependencies d)) \<and> addDependencies calls d = Inr d'"
  then show "acyclic (set (task_dependencies d'))"
    using addDependencies_acyclic by blast
  then show "\<forall>x. (x, x) \<notin> (set (task_dependencies d'))\<^sup>+"
    by (simp add: acyclic_def)
next
  assume "getTask t d \<noteq> None \<and> getTask dep d \<noteq> None \<and> (dep, t) \<in> (set (task_dependencies d))\<^sup>*"
  then show "addDependency t dep d = (Inl (DependencyCycleError t dep), d)"
    by (simp add: addDependency_def wouldCreateCycle_iff)
next
  have "wouldCreateCycle x x d" by (simp add: wouldCreateCycle_iff)
  then show "\<exists>e. addDependency x x d = (Inl e, d)"
    by (simp add: addDependency_def)
qed


text \<open>
  C4 on the sample store: B depends on A, C depends on B, and then \<open>addDependency(A, C)\<close>
  is refused.
\<close>

theorem addDependency_never_cyclic_witness:
  "acyclic (set (task_dependencies sampleDb))
   \<and> addDependencies [(''B'', ''A''), (''C'', ''B'')] sampleDb = Inr chainDb
   \<and> acyclic (set (task_dependencies chainDb))
   \<and> getTask ''A'' chainDb \<noteq> None \<and> getTask ''C'' chainDb \<noteq> None
   \<and> (''C'', ''A'') \<in> (set (task_dependencies chainDb))\<^sup>*
   \<and> addDependency ''A'' ''C'' chainDb = (Inl (DependencyCycleError ''A'' ''C''), chainDb)
   \<and> (\<exists>e. addDependency ''B'' ''B'' chainDb = (Inl e, chainDb))"
proof -
  have h1: "acyclic (set (task_dependencies sampleDb))"
    by (simp add: sampleDb_def acyclic_def)
  have h2: "addDependencies [(''B'', ''A''), (''C'', ''B'')] sampleDb = Inr chainDb"
    by (simp add: addDependency_def wouldCreateCycle_def getTask_def chainDb_def sampleDb_def
          sampleTask_def)
  have h3: "getTask ''A'' chainDb \<noteq> None \<and> getTask ''C'' chainDb \<noteq> None"
    by (simp add: getTask_def chainDb_def sampleDb_def sampleTask_def)
  have "(''C'', ''B'') \<in> set (task_dependencies chainDb)"
    and "(''B'', ''A'') \<in> set (task_dependencies chainDb)"
    by (simp_all add: chainDb_def)
  then have h4: "(''C'', ''A'') \<in> (set (task_dependencies chainDb))\<^sup>*"
    by (meson r_into_rtrancl rtrancl_trans)
  note t1 = addDependency_never_cyclic[of sampleDb "[(''B'', ''A''), (''C'', ''B'')]" chainDb]
  note t2 = addDependency_never_cyclic[of chainDb "[]" chainDb "''A''" "''C''" "''B''"]
  have c1: "acyclic (set (task_dependencies chainDb))" using t1 h1 h2 by blast
  have c2: "addDependency ''A'' ''C'' chainDb = (Inl (DependencyCycleError ''A'' ''C''), chainDb)"
    using t2 h3 h4 by blast
  have c3: "\<exists>e. addDependency ''B'' ''B'' chainDb = (Inl e, chainDb)" using t2 by blast
  show ?thesis using h1 h2 c1 h3 h4 c2 c3 by blast
qed

section \<open>Properties of the lease operations\<close>

lemma getTask_tid: "getTask i d = Some task \<Longrightarrow> tid task = i"
  by (auto simp: getTask_def find_Some_iff)

lemma getTask_mem: "getTask i d = Some task \<Longrightarrow> task \<in> set (tasks d)"
  by (auto simp: getTask_def find_Some_iff)

lemma sqlUpdate_changes:
  assumes "getTask i d = Some task" and "c task"
  shows "snd (sqlUpdate c g d) \<noteq> 0"
proof -
  have "task \<in> set (filter c (tasks d))"
    using getTask_mem[OF assms(1)] assms(2) by simp
  then have "filter c (tasks d) \<noteq> []" by (auto simp del: set_filter)
  then show ?thesis by (simp add: sqlUpdate_def)
qed

lemma sqlUpdate_no_changes: "snd (sqlUpdate c g d) = 0 \<Longrightarrow> fst (sqlUpdate c g d) = d"
  by (simp add: sqlUpdate_def map_no_match)

lemma getTask_sqlUpdate:
  assumes "getTask i d = Some task" and "\<And>r. tid (g r) = tid r"
  shows "getTask i (fst (sqlUpdate c g d)) = Some (if c task then g task else task)"
  using find_sqlUpdate_Some[of i "tasks d" task g c] assms
  by (simp add: getTask_def sqlUpdate_def)

lemma distinct_filter_id:
  assumes "distinct (map tid rows)" and "find (\<lambda>r. tid r = i) rows = Some task" and "\<not> c task"
  shows "filter (\<lambda>r. tid r = i \<and> c r) rows = []"
  using assms
proof (induction rows)
  case Nil
  then show ?case by simp
next
  case (Cons r rows)
  show ?case
  proof (cases "tid r = i")
    case True
    then have "r = task" using Cons.prems(2) by simp
    moreover have "tid r \<notin> tid ` set rows" using Cons.prems(1) by simp
    then have "\<forall>x \<in> set rows. tid x \<noteq> i" using True by blast
    ultimately show ?thesis using Cons.prems(3) by (auto simp: filter_empty_conv)
  next
    case False
    then show ?thesis using Cons by simp
  qed
qed

lemma isLockExpired_sqlLess:
  "locked_at r = Some la \<Longrightarrow> isLockExpired (locked_at r) nowMs = sqlLess (locked_at r) (lockExpiryCutoff nowMs)"
  by (auto simp: isLockExpired_def sqlLess_def lockExpiryCutoff_def)

text \<open>
  Claim C5. For every existing task, \<open>lockTask(id, agent)\<close> returns a result and never
  throws. It succeeds, and the task is then leased to the agent, when the task is unlocked,
  already locked by the same agent, or locked with a lease older than 30 minutes (whoever
  holds it). When it does not succeed, the store is unchanged and the result has
  \<open>success = false\<close> and names the current owner, another agent whose lease has not
  expired, with the stored acquisition time. With unique task ids, a live lease of another
  (non-empty) owner always gives that result.
\<close>

theorem lockTask_acquire:
  assumes "getTask i d = Some task"
  shows "\<exists>r d'. lockTask i agentId nowMs d = (Inr r, d')
           \<and> ((locked_by task = None \<or> locked_by task = Some agentId
                \<or> (\<exists>la. locked_at task = Some la \<and> nowMs - la > 30 * 60 * 1000))
               \<longrightarrow> success r \<and> lr_locked_by r = Some agentId
                   \<and> (\<exists>t'. getTask i d' = Some t' \<and> locked_by t' = Some agentId
                          \<and> \<not> isLockExpired (locked_at t') nowMs))
           \<and> (\<not> success r
               \<longrightarrow> d' = d
                   \<and> (\<exists>owner. locked_by task = Some owner \<and> owner \<noteq> agentId
                          \<and> \<not> isLockExpired (locked_at task) nowMs
                          \<and> lr_locked_by r = Some owner \<and> lr_locked_at r = locked_at task
                          \<and> lr_error r = Some (''Task is locked by '' @ owner)))
           \<and> (distinct (map tid (tasks d))
                \<and> (\<exists>owner. locked_by task = Some owner \<and> owner \<noteq> [] \<and> owner \<noteq> agentId
                       \<and> \<not> isLockExpired (locked_at task) nowMs)
               \<longrightarrow> \<not> success r)"
proof -
  let ?pre = "locked_by task = None \<or> locked_by task = Some agentId
                \<or> (\<exists>la. locked_at task = Some la \<and> nowMs - la > 30 * 60 * 1000)"
  let ?live = "\<exists>owner. locked_by task = Some owner \<and> owner \<noteq> [] \<and> owner \<noteq> agentId
                       \<and> \<not> isLockExpired (locked_at task) nowMs"
  let ?c = "\<lambda>r. tid r = i \<and> (locked_by r = None \<or> locked_by r = Some agentId
                                \<or> sqlLess (locked_at r) (lockExpiryCutoff nowMs))"
  let ?g = "\<lambda>r. r\<lparr> locked_by := Some agentId, locked_at := Some nowMs,
                     version := version r + 1, updated_at := nowMs \<rparr>"
  let ?d1 = "fst (sqlUpdate ?c ?g d)"
  let ?changes = "snd (sqlUpdate ?c ?g d)"
  let ?granted = "\<lparr> success = True, lr_locked_by = Some agentId,
                     lr_locked_at = Some nowMs, lr_error = None \<rparr>"
  have tid: "tid task = i" using assms by (rule getTask_tid)
  define d1 where "d1 = ?d1"
  define granted where "granted = ?granted"
  have g1: "getTask i d1 = Some (if ?c task then ?g task else task)"
    unfolding d1_def using getTask_sqlUpdate[OF assms, of ?g ?c] by simp
  have sg: "success granted" "lr_locked_by granted = Some agentId"
    by (simp_all add: granted_def)
  show ?thesis
  proof (cases "locked_by task = Some agentId \<and> \<not> isLockExpired (locked_at task) nowMs")
    case True
    define r where "r = \<lparr> success = True, lr_locked_by = Some agentId,
                           lr_locked_at = locked_at task, lr_error = None \<rparr>"
    have A: "lockTask i agentId nowMs d = (Inr r, d)"
      using assms True by (simp add: lockTask_def r_def)
    have B: "success r" "lr_locked_by r = Some agentId" by (simp_all add: r_def)
    show ?thesis
      by (rule exI[of _ r], rule exI[of _ d]) (use A B assms True in auto)
  next
    case notheld: False
    show ?thesis
    proof (cases "?c task")
      case True
      have ch: "?changes \<noteq> 0" using sqlUpdate_changes[OF assms, of ?c ?g] True by simp
      have A: "lockTask i agentId nowMs d = (Inr granted, d1)"
        using assms ch
        by (simp add: lockTask_def Let_def case_prod_beta if_not_P[OF notheld] d1_def granted_def)
      define t' where "t' = ?g task"
      have post: "getTask i d1 = Some t'" using g1 True by (simp add: t'_def)
      have fresh: "locked_by t' = Some agentId" "\<not> isLockExpired (locked_at t') nowMs"
        by (simp_all add: isLockExpired_def LOCK_EXPIRY_MINUTES_def t'_def)
      have nl: "\<not> ?live"
        using True
        by (auto simp: isLockExpired_def sqlLess_def lockExpiryCutoff_def split: option.splits)
      show ?thesis
        by (rule exI[of _ granted], rule exI[of _ d1]) (use A sg post fresh nl in auto)
    next
      case nc: False
      then obtain owner where owner: "locked_by task = Some owner" "owner \<noteq> agentId"
        using tid by (cases "locked_by task") auto
      have nless: "\<not> sqlLess (locked_at task) (lockExpiryCutoff nowMs)" using nc tid by simp
      have nolease: "\<not> (\<exists>la. locked_at task = Some la \<and> nowMs - la > 30 * 60 * 1000)"
        using nless by (auto simp: sqlLess_def lockExpiryCutoff_def LOCK_EXPIRY_MINUTES_def)
      have pre: "\<not> ?pre"
        using owner nolease by simp
      show ?thesis
      proof (cases "?changes = 0")
        case True
        have same: "d1 = d" unfolding d1_def using True by (rule sqlUpdate_no_changes)
        have cur: "getTask i ?d1 = Some task" using same assms by (simp add: d1_def)
        show ?thesis
        proof (cases "owner \<noteq> [] \<and> \<not> isLockExpired (locked_at task) nowMs")
          case held: True
          define r where "r = \<lparr> success = False, lr_locked_by = Some owner,
                                 lr_locked_at = locked_at task,
                                 lr_error = Some (''Task is locked by '' @ owner) \<rparr>"
          have A: "lockTask i agentId nowMs d = (Inr r, d)"
            using assms True cur owner held same
            by (simp add: lockTask_def Let_def case_prod_beta if_not_P[OF notheld] r_def d1_def)
          have C: "\<not> success r" "lr_locked_by r = Some owner" "lr_locked_at r = locked_at task"
            "lr_error r = Some (''Task is locked by '' @ owner)"
            by (simp_all add: r_def)
          show ?thesis
            by (rule exI[of _ r], rule exI[of _ d]) (use A pre C owner held in auto)
        next
          case free: False
          have A: "lockTask i agentId nowMs d = (Inr granted, d1)"
            using assms True cur owner free
            by (auto simp: lockTask_def Let_def case_prod_beta if_not_P[OF notheld] d1_def granted_def)
          have nd: "\<not> ?live" using free owner by auto
          show ?thesis
            by (rule exI[of _ granted], rule exI[of _ d1]) (use A pre nd sg in auto)
        qed
      next
        case ch: False
        have A: "lockTask i agentId nowMs d = (Inr granted, d1)"
          using assms ch
          by (simp add: lockTask_def Let_def case_prod_beta if_not_P[OF notheld] d1_def granted_def)
        have nd: "\<not> distinct (map tid (tasks d))"
        proof
          assume "distinct (map tid (tasks d))"
          then have "filter ?c (tasks d) = []"
            using assms owner nless
            by (intro distinct_filter_id[where task = task]) (auto simp: getTask_def)
          then show False using ch by (simp add: sqlUpdate_def)
        qed
        show ?thesis
          by (rule exI[of _ granted], rule exI[of _ d1]) (use A pre nd sg in auto)
      qed
    qed
  qed
qed

text \<open>
  Claim C7. \<open>lockTask(id, A)\<close> on a task that A holds with a lease not older than 30
  minutes returns \<open>success = true\<close> with the stored acquisition time and leaves the
  store as it was: \<open>locked_at\<close> is not refreshed.
\<close>

theorem lockTask_relock:
  assumes "getTask i d = Some task" and "locked_by task = Some agentId"
    and "locked_at task = Some la" and "nowMs - la \<le> 30 * 60 * 1000"
  shows "lockTask i agentId nowMs d
           = (Inr \<lparr> success = True, lr_locked_by = Some agentId,
                     lr_locked_at = Some la, lr_error = None \<rparr>, d)
         \<and> getTask i (snd (lockTask i agentId nowMs d)) = Some task"
  using assms by (simp add: lockTask_def isLockExpired_def LOCK_EXPIRY_MINUTES_def)

lemma completeTask_blocked:
  assumes "getTask i d = Some task" and "agentId = Some a" and "a \<noteq> []"
    and "locked_by task = Some owner" and "owner \<noteq> []" and "owner \<noteq> a"
    and "\<not> isLockExpired (locked_at task) nowMs"
  shows "completeTask i agentId nowMs d = (Inl (LockError i owner), d)"
  using assms by (simp add: completeTask_def truthy_def)

lemma completeTask_done:
  assumes "getTask i d = Some task"
    and "\<not> (\<exists>a owner. agentId = Some a \<and> a \<noteq> [] \<and> locked_by task = Some owner \<and> owner \<noteq> []
                \<and> owner \<noteq> a \<and> \<not> isLockExpired (locked_at task) nowMs)"
  shows "\<exists>t' d'. completeTask i agentId nowMs d = (Inr (Some t'), d')
           \<and> getTask i d' = Some t'
           \<and> status t' = Completed \<and> completed_at t' = Some nowMs
           \<and> locked_by t' = None \<and> locked_at t' = None
           \<and> version t' = version task + 1"
proof -
  let ?c = "\<lambda>r. tid r = i"
  let ?g = "\<lambda>r. r\<lparr> status := Completed, locked_by := None, locked_at := None,
                     completed_at := Some nowMs, version := version r + 1,
                     updated_at := nowMs \<rparr>"
  define d1 where "d1 = fst (sqlUpdate ?c ?g d)"
  define t' where "t' = ?g task"
  have tid: "tid task = i" using assms(1) by (rule getTask_tid)
  have post: "getTask i d1 = Some t'"
    unfolding d1_def t'_def using getTask_sqlUpdate[OF assms(1), of ?g ?c] tid by simp
  have nb: "(case locked_by task of
                None \<Rightarrow> None
              | Some owner \<Rightarrow>
                  if truthy agentId \<and> truthy (locked_by task) \<and> locked_by task \<noteq> agentId
                     \<and> \<not> isLockExpired (locked_at task) nowMs
                  then Some owner else None) = None"
    using assms(2) by (cases agentId; cases "locked_by task") (auto simp: truthy_def)
  have run: "completeTask i agentId nowMs d = (Inr (Some t'), d1)"
    using assms(1) post by (simp add: completeTask_def Let_def nb d1_def)
  have fields: "status t' = Completed" "completed_at t' = Some nowMs" "locked_by t' = None"
    "locked_at t' = None" "version t' = version task + 1"
    by (simp_all add: t'_def)
  show ?thesis
    by (rule exI[of _ t'], rule exI[of _ d1]) (use run post fields in simp)
qed

text \<open>
  Claim C6, amended. \<open>completeTask(id, agentId)\<close> fails with \<open>TaskNotFoundError\<close> when
  the task does not exist. When a non-empty \<open>agentId\<close> is supplied and another agent,
  with a non-empty id, holds a lease that has not expired, it fails with \<open>LockError\<close>
  naming that owner and changes nothing. In every other case it sets the status to
  \<open>completed\<close>, stamps \<open>completed_at\<close>, clears \<open>locked_by\<close> and \<open>locked_at\<close> and
  increments the version; this is so in particular when \<open>agentId\<close> is omitted or is the
  empty string, whoever holds the lease.
\<close>

theorem completeTask_outcomes:
  "(getTask i d = None \<longrightarrow> completeTask i agentId nowMs d = (Inl (TaskNotFoundError i), d))
   \<and> (\<forall>task a owner.
         getTask i d = Some task \<and> agentId = Some a \<and> a \<noteq> []
         \<and> locked_by task = Some owner \<and> owner \<noteq> [] \<and> owner \<noteq> a
         \<and> \<not> isLockExpired (locked_at task) nowMs
         \<longrightarrow> completeTask i agentId nowMs d = (Inl (LockError i owner), d))
   \<and> (\<forall>task.
         getTask i d = Some task
         \<and> \<not> (\<exists>a owner. agentId = Some a \<and> a \<noteq> [] \<and> locked_by task = Some owner \<and> owner \<noteq> []
                  \<and> owner \<noteq> a \<and> \<not> isLockExpired (locked_at task) nowMs)
         \<longrightarrow> (\<exists>t' d'. completeTask i agentId nowMs d = (Inr (Some t'), d')
                \<and> getTask i d' = Some t'
                \<and> status t' = Completed \<and> completed_at t' = Some nowMs
                \<and> locked_by t' = None \<and> locked_at t' = None
                \<and> version t' = version task + 1))
   \<and> (\<forall>task.
         getTask i d = Some task \<and> (agentId = None \<or> agentId = Some [])
         \<longrightarrow> (\<exists>t' d'. completeTask i agentId nowMs d = (Inr (Some t'), d')
                \<and> getTask i d' = Some t'
                \<and> status t' = Completed \<and> completed_at t' = Some nowMs
                \<and> locked_by t' = None \<and> locked_at t' = None
                \<and> version t' = version task + 1))"
proof (intro conjI allI impI)
  assume "getTask i d = None"
  then show "completeTask i agentId nowMs d = (Inl (TaskNotFoundError i), d)"
    by (simp add: completeTask_def)
next
  fix task a owner
  assume "getTask i d = Some task \<and> agentId = Some a \<and> a \<noteq> []
         \<and> locked_by task = Some owner \<and> owner \<noteq> [] \<and> owner \<noteq> a
         \<and> \<not> isLockExpired (locked_at task) nowMs"
  then show "completeTask i agentId nowMs d = (Inl (LockError i owner), d)"
    by (intro completeTask_blocked[where task = task and a = a]) simp_all
next
  fix task
  assume "getTask i d = Some task
         \<and> \<not> (\<exists>a owner. agentId = Some a \<and> a \<noteq> [] \<and> locked_by task = Some owner \<and> owner \<noteq> []
                  \<and> owner \<noteq> a \<and> \<not> isLockExpired (locked_at task) nowMs)"
  then show "\<exists>t' d'. completeTask i agentId nowMs d = (Inr (Some t'), d')
                \<and> getTask i d' = Some t'
                \<and> status t' = Completed \<and> completed_at t' = Some nowMs
                \<and> locked_by t' = None \<and> locked_at t' = None
                \<and> version t' = version task + 1"
    by (intro completeTask_done) simp_all
next
  fix task
  assume a: "getTask i d = Some task \<and> (agentId = None \<or> agentId = Some [])"
  then have "\<not> (\<exists>a owner. agentId = Some a \<and> a \<noteq> [] \<and> locked_by task = Some owner \<and> owner \<noteq> []
                  \<and> owner \<noteq> a \<and> \<not> isLockExpired (locked_at task) nowMs)"
    by auto
  with a show "\<exists>t' d'. completeTask i agentId nowMs d = (Inr (Some t'), d')
                \<and> getTask i d' = Some t'
                \<and> status t' = Completed \<and> completed_at t' = Some nowMs
                \<and> locked_by t' = None \<and> locked_at t' = None
                \<and> version t' = version task + 1"
    by (intro completeTask_done) simp_all
qed

text \<open>
  Claim C6 as stated fails for a supplied but empty agent id: the test \<open>agentId &&\<close> of
  the source treats the empty string like an omitted argument. Task T is leased to claude
  since 1 second; \<open>completeTask(T, "")\<close> does not fail with \<open>LockError\<close> but completes the
  task and clears the lease.
\<close>

theorem completeTask_empty_agent_counterexample:
  "getTask ''T'' (lockedDb ''claude'' 1000) = Some (lockedTask ''claude'' 1000)
   \<and> locked_by (lockedTask ''claude'' 1000) = Some ''claude''
   \<and> ''claude'' \<noteq> []
   \<and> \<not> isLockExpired (locked_at (lockedTask ''claude'' 1000)) 2000
   \<and> fst (completeTask ''T'' (Some []) 2000 (lockedDb ''claude'' 1000))
       \<noteq> Inl (LockError ''T'' ''claude'')
   \<and> fst (completeTask ''T'' (Some []) 2000 (lockedDb ''claude'' 1000))
       = Inr (Some ((lockedTask ''claude'' 1000)
                      \<lparr> status := Completed, locked_by := None, locked_at := None,
                        completed_at := Some 2000, version := 2, updated_at := 2000 \<rparr>))"
  by (simp add: completeTask_def getTask_def lockedDb_def lockedTask_def sampleTask_def
        isLockExpired_def LOCK_EXPIRY_MINUTES_def truthy_def sqlUpdate_def)

text \<open>
  The amended C6 on a sample store where claude holds a 1 second old lease on T: an unknown
  id, codex refused with \<open>LockError\<close> naming claude, claude completing its own task, and
  a call without agent id completing the task.
\<close>

theorem completeTask_outcomes_witness:
  "getTask ''Z'' (lockedDb ''claude'' 1000) = None
   \<and> completeTask ''Z'' (Some ''codex'') 2000 (lockedDb ''claude'' 1000)
       = (Inl (TaskNotFoundError ''Z''), lockedDb ''claude'' 1000)
   \<and> getTask ''T'' (lockedDb ''claude'' 1000) = Some (lockedTask ''claude'' 1000)
   \<and> locked_by (lockedTask ''claude'' 1000) = Some ''claude''
   \<and> \<not> isLockExpired (locked_at (lockedTask ''claude'' 1000)) 2000
   \<and> completeTask ''T'' (Some ''codex'') 2000 (lockedDb ''claude'' 1000)
       = (Inl (LockError ''T'' ''claude''), lockedDb ''claude'' 1000)
   \<and> (\<exists>t' d'. completeTask ''T'' (Some ''claude'') 2000 (lockedDb ''claude'' 1000) = (Inr (Some t'), d')
          \<and> status t' = Completed \<and> locked_by t' = None \<and> version t' = 2)
   \<and> (\<exists>t' d'. completeTask ''T'' None 2000 (lockedDb ''claude'' 1000) = (Inr (Some t'), d')
          \<and> status t' = Completed \<and> completed_at t' = Some 2000
          \<and> locked_by t' = None \<and> locked_at t' = None \<and> version t' = 2)"
proof -
  let ?d = "lockedDb ''claude'' 1000"
  let ?t = "lockedTask ''claude'' 1000"
  have z: "getTask ''Z'' ?d = None"
    by (simp add: getTask_def lockedDb_def lockedTask_def sampleTask_def)
  have t: "getTask ''T'' ?d = Some ?t"
    by (simp add: getTask_def lockedDb_def lockedTask_def sampleTask_def)
  have o: "locked_by ?t = Some ''claude''" by (simp add: lockedTask_def)
  have l: "\<not> isLockExpired (locked_at ?t) 2000"
    by (simp add: lockedTask_def isLockExpired_def LOCK_EXPIRY_MINUTES_def)
  have v: "version ?t = 1" by (simp add: lockedTask_def sampleTask_def)
  have c1: "completeTask ''Z'' (Some ''codex'') 2000 ?d = (Inl (TaskNotFoundError ''Z''), ?d)"
    using completeTask_outcomes[of "''Z''" ?d "Some ''codex''" 2000, THEN conjunct1] z by simp
  have c2: "completeTask ''T'' (Some ''codex'') 2000 ?d = (Inl (LockError ''T'' ''claude''), ?d)"
  proof -
    have "getTask ''T'' ?d = Some ?t \<and> Some ''codex'' = Some ''codex'' \<and> ''codex'' \<noteq> []
         \<and> locked_by ?t = Some ''claude'' \<and> ''claude'' \<noteq> [] \<and> ''claude'' \<noteq> ''codex''
         \<and> \<not> isLockExpired (locked_at ?t) 2000"
      using t o l by simp
    then show ?thesis
      by (rule completeTask_outcomes[of "''T''" ?d "Some ''codex''" 2000,
                 THEN conjunct2, THEN conjunct1, rule_format])
  qed
  have c3: "\<exists>t' d'. completeTask ''T'' (Some ''claude'') 2000 ?d = (Inr (Some t'), d')
          \<and> status t' = Completed \<and> locked_by t' = None \<and> version t' = 2"
  proof -
    have "getTask ''T'' ?d = Some ?t
         \<and> \<not> (\<exists>a owner. Some ''claude'' = Some a \<and> a \<noteq> [] \<and> locked_by ?t = Some owner \<and> owner \<noteq> []
                  \<and> owner \<noteq> a \<and> \<not> isLockExpired (locked_at ?t) 2000)"
      using t o by auto
    from completeTask_outcomes[of "''T''" ?d "Some ''claude''" 2000,
           THEN conjunct2, THEN conjunct2, THEN conjunct1, rule_format, OF this]
    obtain t' d' where "completeTask ''T'' (Some ''claude'') 2000 ?d = (Inr (Some t'), d')"
      "status t' = Completed" "locked_by t' = None" "version t' = version ?t + 1"
      by auto
    then show ?thesis using v by auto
  qed
  have c4: "\<exists>t' d'. completeTask ''T'' None 2000 ?d = (Inr (Some t'), d')
          \<and> status t' = Completed \<and> completed_at t' = Some 2000
          \<and> locked_by t' = None \<and> locked_at t' = None \<and> version t' = 2"
  proof -
    have "getTask ''T'' ?d = Some ?t \<and> (None = (None :: string option) \<or> None = Some [])"
      using t by simp
    from completeTask_outcomes[of "''T''" ?d None 2000,
           THEN conjunct2, THEN conjunct2, THEN conjunct2, rule_format, OF this]
    obtain t' d' where "completeTask ''T'' None 2000 ?d = (Inr (Some t'), d')"
      "status t' = Completed" "completed_at t' = Some 2000" "locked_by t' = None"
      "locked_at t' = None" "version t' = version ?t + 1"
      by auto
    then show ?thesis using v by auto
  qed
  show ?thesis by (intro conjI z c1 t o l c2 c3 c4)
qed

text \<open>
  C7 on a sample store: claude re-locks after 1 second and gets the old timestamp back.
\<close>

theorem lockTask_relock_witness:
  "getTask ''T'' (lockedDb ''claude'' 1000) = Some (lockedTask ''claude'' 1000)
   \<and> locked_by (lockedTask ''claude'' 1000) = Some ''claude''
   \<and> locked_at (lockedTask ''claude'' 1000) = Some 1000
   \<and> (2000::int) - 1000 \<le> 30 * 60 * 1000
   \<and> lockTask ''T'' ''claude'' 2000 (lockedDb ''claude'' 1000)
       = (Inr \<lparr> success = True, lr_locked_by = Some ''claude'',
                 lr_locked_at = Some 1000, lr_error = None \<rparr>, lockedDb ''claude'' 1000)"
proof -
  have t: "getTask ''T'' (lockedDb ''claude'' 1000) = Some (lockedTask ''claude'' 1000)"
    by (simp add: getTask_def lockedDb_def lockedTask_def sampleTask_def)
  have o: "locked_by (lockedTask ''claude'' 1000) = Some ''claude''"
    and a: "locked_at (lockedTask ''claude'' 1000) = Some 1000"
    by (simp_all add: lockedTask_def)
  have n: "(2000::int) - 1000 \<le> 30 * 60 * 1000" by simp
  from lockTask_relock[OF t o a n] t o a n show ?thesis by simp
qed

text \<open>
  C5 on sample stores: an unlocked task is acquired; a lease of claude that is older than
  30 minutes is acquired by codex; a lease of claude that is 1 second old refuses codex and
  the result names claude.
\<close>

theorem lockTask_acquire_witness:
  "getTask ''A'' sampleDb = Some (sampleTask ''A'')
   \<and> locked_by (sampleTask ''A'') = None
   \<and> (\<exists>r d'. lockTask ''A'' ''claude'' 2000 sampleDb = (Inr r, d') \<and> success r
          \<and> lr_locked_by r = Some ''claude''
          \<and> (\<exists>t'. getTask ''A'' d' = Some t' \<and> locked_by t' = Some ''claude''))
   \<and> getTask ''T'' (lockedDb ''claude'' 1000) = Some (lockedTask ''claude'' 1000)
   \<and> locked_at (lockedTask ''claude'' 1000) = Some 1000
   \<and> (1900000::int) - 1000 > 30 * 60 * 1000
   \<and> (\<exists>r d'. lockTask ''T'' ''codex'' 1900000 (lockedDb ''claude'' 1000) = (Inr r, d') \<and> success r
          \<and> lr_locked_by r = Some ''codex''
          \<and> (\<exists>t'. getTask ''T'' d' = Some t' \<and> locked_by t' = Some ''codex''))
   \<and> distinct (map tid (tasks (lockedDb ''claude'' 1000)))
   \<and> locked_by (lockedTask ''claude'' 1000) = Some ''claude''
   \<and> \<not> isLockExpired (locked_at (lockedTask ''claude'' 1000)) 2000
   \<and> (\<exists>r d'. lockTask ''T'' ''codex'' 2000 (lockedDb ''claude'' 1000) = (Inr r, d') \<and> \<not> success r
          \<and> d' = lockedDb ''claude'' 1000 \<and> lr_locked_by r = Some ''claude''
          \<and> lr_locked_at r = Some 1000)"
proof -
  let ?d = "lockedDb ''claude'' 1000"
  let ?t = "lockedTask ''claude'' 1000"
  have a: "getTask ''A'' sampleDb = Some (sampleTask ''A'')"
    by (simp add: getTask_def sampleDb_def sampleTask_def)
  have an: "locked_by (sampleTask ''A'') = None" by (simp add: sampleTask_def)
  have t: "getTask ''T'' ?d = Some ?t"
    by (simp add: getTask_def lockedDb_def lockedTask_def sampleTask_def)
  have o: "locked_by ?t = Some ''claude''" and la: "locked_at ?t = Some 1000"
    by (simp_all add: lockedTask_def)
  have old: "(1900000::int) - 1000 > 30 * 60 * 1000" by simp
  have l: "\<not> isLockExpired (locked_at ?t) 2000"
    by (simp add: lockedTask_def isLockExpired_def LOCK_EXPIRY_MINUTES_def)
  have dist: "distinct (map tid (tasks ?d))" by (simp add: lockedDb_def)
  have c1: "\<exists>r d'. lockTask ''A'' ''claude'' 2000 sampleDb = (Inr r, d') \<and> success r
          \<and> lr_locked_by r = Some ''claude''
          \<and> (\<exists>t'. getTask ''A'' d' = Some t' \<and> locked_by t' = Some ''claude'')"
    using lockTask_acquire[OF a, of "''claude''" 2000] an by auto
  have c2: "\<exists>r d'. lockTask ''T'' ''codex'' 1900000 ?d = (Inr r, d') \<and> success r
          \<and> lr_locked_by r = Some ''codex''
          \<and> (\<exists>t'. getTask ''T'' d' = Some t' \<and> locked_by t' = Some ''codex'')"
    using lockTask_acquire[OF t, of "''codex''" 1900000] la old by auto
  have live: "\<exists>owner. locked_by ?t = Some owner \<and> owner \<noteq> [] \<and> owner \<noteq> ''codex''
                \<and> \<not> isLockExpired (locked_at ?t) 2000"
    using o l by simp
  from lockTask_acquire[OF t, of "''codex''" 2000] dist live
  obtain r d' where r: "lockTask ''T'' ''codex'' 2000 ?d = (Inr r, d')" "\<not> success r"
    and rest: "\<not> success r \<longrightarrow> d' = ?d
                   \<and> (\<exists>owner. locked_by ?t = Some owner \<and> owner \<noteq> ''codex''
                          \<and> \<not> isLockExpired (locked_at ?t) 2000
                          \<and> lr_locked_by r = Some owner \<and> lr_locked_at r = locked_at ?t
                          \<and> lr_error r = Some (''Task is locked by '' @ owner))"
    by auto
  from r(2) rest o la have "d' = ?d" "lr_locked_by r = Some ''claude''" "lr_locked_at r = Some 1000"
    by auto
  with r have c3: "\<exists>r d'. lockTask ''T'' ''codex'' 2000 ?d = (Inr r, d') \<and> \<not> success r
          \<and> d' = ?d \<and> lr_locked_by r = Some ''claude'' \<and> lr_locked_at r = Some 1000"
    by auto
  show ?thesis by (intro conjI a an c1 t la old c2 dist o l c3)
qed

section \<open>Properties of listing and of the push pass\<close>

lemma priorityRank_inj: "priorityRank a = priorityRank b \<Longrightarrow> a = b"
  by (cases a; cases b) simp_all

lemma orderKey_le:
  "orderKey a \<le> orderKey b
   \<Longrightarrow> priorityRank (priority a) < priorityRank (priority b)
       \<or> (priority a = priority b \<and> created_at b \<le> created_at a)"
  by (auto simp: orderKey_def dest: priorityRank_inj)

lemma sorted_wrt_sqlLimitOffset:
  "sorted_wrt R rows \<Longrightarrow> sorted_wrt R (sqlLimitOffset limitN off rows)"
  by (simp add: sqlLimitOffset_def Let_def)

lemma listTasks_ordered:
  "sorted_wrt (\<lambda>a b. priorityRank (priority a) < priorityRank (priority b)
                    \<or> (priority a = priority b \<and> created_at b \<le> created_at a))
     (fst (listTasks f nowMs d))"
proof -
  let ?rows = "filter (filterMatches f (clearExpiredLocks nowMs d)) (tasks (clearExpiredLocks nowMs d))"
  have "sorted (map orderKey (sort_key orderKey ?rows))" by (rule sorted_sort_key)
  then have "sorted_wrt (\<lambda>a b. orderKey a \<le> orderKey b) (sort_key orderKey ?rows)"
    by (simp add: sorted_map)
  then have "sorted_wrt (\<lambda>a b. priorityRank (priority a) < priorityRank (priority b)
                    \<or> (priority a = priority b \<and> created_at b \<le> created_at a))
               (sort_key orderKey ?rows)"
    by (rule sorted_wrt_mono_rel[rotated]) (rule orderKey_le)
  then show ?thesis
    by (simp add: listTasks_def Let_def sorted_wrt_sqlLimitOffset)
qed

lemma listTasks_no_limit_length:
  "f_limit f = None \<Longrightarrow> length (fst (listTasks f nowMs d)) \<le> 100"
  by (simp add: listTasks_def Let_def sqlLimitOffset_def)

lemma listTasks_no_limit_rows:
  "f_limit f = None \<Longrightarrow> f_offset f = None
   \<Longrightarrow> fst (listTasks f nowMs d)
       = take 100 (sort_key orderKey
                     (filter (filterMatches f (clearExpiredLocks nowMs d))
                        (tasks (clearExpiredLocks nowMs d))))"
  by (simp add: listTasks_def Let_def sqlLimitOffset_def)

lemma listTasks_limit_rows:
  "f_limit f = Some n \<Longrightarrow> 0 < n \<Longrightarrow> f_offset f = None
   \<Longrightarrow> fst (listTasks f nowMs d)
       = take (nat n) (sort_key orderKey
                         (filter (filterMatches f (clearExpiredLocks nowMs d))
                            (tasks (clearExpiredLocks nowMs d))))"
  by (simp add: listTasks_def Let_def sqlLimitOffset_def)



lemma pushTask_rewrite:
  assumes "existingMap (tid task) = Some (existing, mtime)"
    and "\<not> conflictDetected (parseTimestamp (ct_metadata existing ''todos_updated_at''))
             (Some (updated_at task)) mtime"
  shows "pushTask pref prefixConfig existingMap nowMs task s
           = s\<lparr> ps_dir := writeClaudeTask (ps_dir s)
                             ((taskToClaudeTask task (ct_id existing) (Some (ct_metadata existing)))
                                \<lparr> ct_blocks := ct_blocks existing,
                                  ct_blockedBy := ct_blockedBy existing,
                                  ct_activeForm := ct_activeForm existing \<rparr>) nowMs,
                ps_pushed := ps_pushed s + 1 \<rparr>"
  using assms by (simp add: pushTask_def Let_def)

lemma pushTask_pushed_le:
  "ps_pushed (pushTask pref prefixConfig existingMap nowMs task s) \<le> ps_pushed s + 1"
  by (simp add: pushTask_def Let_def pushCaught_def
           split: option.splits prod.splits sum.splits)

lemma fold_pushTask_pushed_le:
  "ps_pushed (fold (pushTask pref prefixConfig existingMap nowMs) ts s) \<le> ps_pushed s + length ts"
proof (induction ts arbitrary: s)
  case Nil
  show ?case by simp
next
  case (Cons t ts)
  have "ps_pushed (fold (pushTask pref prefixConfig existingMap nowMs) ts
                     (pushTask pref prefixConfig existingMap nowMs t s))
          \<le> ps_pushed (pushTask pref prefixConfig existingMap nowMs t s) + length ts"
    by (rule Cons.IH)
  also have "\<dots> \<le> ps_pushed s + 1 + length ts"
    using pushTask_pushed_le[of pref prefixConfig existingMap nowMs t s] by simp
  finally show ?case by simp
qed

lemma writeFile_names:
  "path \<in> fst ` set files \<Longrightarrow> map fst (writeFile path mf files) = map fst files"
  by (induction files) (force+)

lemma fold_pushTask_in_sync:
  assumes "\<forall>task \<in> set ts. \<exists>existing mtime.
             existingMap (tid task) = Some (existing, mtime)
             \<and> \<not> conflictDetected (parseTimestamp (ct_metadata existing ''todos_updated_at''))
                   (Some (updated_at task)) mtime
             \<and> ct_id existing @ ''.json'' \<in> fst ` set (json_files (ps_dir s))"
  shows "ps_pushed (fold (pushTask pref prefixConfig existingMap nowMs) ts s) = ps_pushed s + length ts
         \<and> ps_errors (fold (pushTask pref prefixConfig existingMap nowMs) ts s) = ps_errors s
         \<and> ps_hwm (fold (pushTask pref prefixConfig existingMap nowMs) ts s) = ps_hwm s
         \<and> ps_prefixCounter (fold (pushTask pref prefixConfig existingMap nowMs) ts s) = ps_prefixCounter s
         \<and> ps_db (fold (pushTask pref prefixConfig existingMap nowMs) ts s) = ps_db s
         \<and> map fst (json_files (ps_dir (fold (pushTask pref prefixConfig existingMap nowMs) ts s)))
             = map fst (json_files (ps_dir s))
         \<and> highwatermark_file (ps_dir (fold (pushTask pref prefixConfig existingMap nowMs) ts s))
             = highwatermark_file (ps_dir s)
         \<and> prefix_counter_file (ps_dir (fold (pushTask pref prefixConfig existingMap nowMs) ts s))
             = prefix_counter_file (ps_dir s)"
  using assms
proof (induction ts arbitrary: s)
  case Nil
  show ?case by simp
next
  case (Cons t ts)
  from Cons.prems obtain existing mtime where
    e: "existingMap (tid t) = Some (existing, mtime)"
    and nc: "\<not> conflictDetected (parseTimestamp (ct_metadata existing ''todos_updated_at''))
                 (Some (updated_at t)) mtime"
    and nm: "ct_id existing @ ''.json'' \<in> fst ` set (json_files (ps_dir s))"
    by auto
  define s1 where "s1 = pushTask pref prefixConfig existingMap nowMs t s"
  have step: "ps_pushed s1 = ps_pushed s + 1" "ps_errors s1 = ps_errors s" "ps_hwm s1 = ps_hwm s"
    "ps_prefixCounter s1 = ps_prefixCounter s" "ps_db s1 = ps_db s"
    "map fst (json_files (ps_dir s1)) = map fst (json_files (ps_dir s))"
    "highwatermark_file (ps_dir s1) = highwatermark_file (ps_dir s)"
    "prefix_counter_file (ps_dir s1) = prefix_counter_file (ps_dir s)"
    unfolding s1_def pushTask_rewrite[where existingMap = existingMap and task = t and existing = existing and mtime = mtime, OF e nc]
    using nm by (simp_all add: writeClaudeTask_def taskToClaudeTask_def writeFile_names)
  have names: "fst ` set (json_files (ps_dir s1)) = fst ` set (json_files (ps_dir s))"
    using step(6) by (metis list.set_map)
  have "\<forall>task \<in> set ts. \<exists>existing mtime.
             existingMap (tid task) = Some (existing, mtime)
             \<and> \<not> conflictDetected (parseTimestamp (ct_metadata existing ''todos_updated_at''))
                   (Some (updated_at task)) mtime
             \<and> ct_id existing @ ''.json'' \<in> fst ` set (json_files (ps_dir s1))"
    using Cons.prems names by simp
  from Cons.IH[OF this] step show ?case
    by (simp add: s1_def)
qed

lemma snd_listTasks: "snd (listTasks f nowMs d) = clearExpiredLocks nowMs d"
  by (simp add: listTasks_def Let_def)

lemma pushToClaudeTaskList_fold:
  "\<exists>pc. pushToClaudeTaskList dir projectId preferOpt prefixConfig nowMs d =
     (let dir0 = (case dir of
                    None \<Rightarrow> \<lparr>json_files = [], highwatermark_file = None, prefix_counter_file = None\<rparr>
                  | Some x \<Rightarrow> x);
          s = fold (pushTask (case preferOpt of None \<Rightarrow> Remote | Some p \<Rightarrow> p) prefixConfig
                      (existingByTodosId dir0) nowMs)
                (fst (listTasks (projectFilter projectId) nowMs d))
                \<lparr> ps_db = clearExpiredLocks nowMs d, ps_dir = dir0, ps_hwm = readHighWaterMark dir0,
                  ps_prefixCounter = pc, ps_pushed = 0, ps_errors = [] \<rparr>;
          dir1 = writeHighWaterMark (ps_dir s) (ps_hwm s);
          dir2 = (case prefixConfig of None \<Rightarrow> dir1
                  | Some cfg \<Rightarrow> dir1\<lparr>prefix_counter_file := Some (ps_prefixCounter s)\<rparr>)
      in (\<lparr>pushed = ps_pushed s, pulled = 0, errors = ps_errors s\<rparr>, dir2, ps_db s))"
  unfolding pushToClaudeTaskList_def Let_def snd_listTasks by (rule exI) (rule refl)

lemma pushToClaudeTaskList_in_sync:
  assumes "\<forall>task \<in> set (fst (listTasks (projectFilter projectId) nowMs d)).
             \<exists>existing mtime.
               existingByTodosId dir (tid task) = Some (existing, mtime)
               \<and> parseTimestamp (ct_metadata existing ''todos_updated_at'') = Some (updated_at task)
               \<and> ct_id existing @ ''.json'' \<in> fst ` set (json_files dir)"
  shows "fst (pushToClaudeTaskList (Some dir) projectId preferOpt prefixConfig nowMs d)
           = \<lparr> pushed = length (fst (listTasks (projectFilter projectId) nowMs d)),
               pulled = 0, errors = [] \<rparr>
         \<and> map fst (json_files (fst (snd (pushToClaudeTaskList (Some dir) projectId preferOpt
                                            prefixConfig nowMs d))))
             = map fst (json_files dir)
         \<and> readHighWaterMark (fst (snd (pushToClaudeTaskList (Some dir) projectId preferOpt
                                          prefixConfig nowMs d)))
             = readHighWaterMark dir
         \<and> snd (snd (pushToClaudeTaskList (Some dir) projectId preferOpt prefixConfig nowMs d))
             = clearExpiredLocks nowMs d"
proof -
  obtain pc where run: "pushToClaudeTaskList (Some dir) projectId preferOpt prefixConfig nowMs d =
     (let dir0 = (case Some dir of
                    None \<Rightarrow> \<lparr>json_files = [], highwatermark_file = None, prefix_counter_file = None\<rparr>
                  | Some x \<Rightarrow> x);
          s = fold (pushTask (case preferOpt of None \<Rightarrow> Remote | Some p \<Rightarrow> p) prefixConfig
                      (existingByTodosId dir0) nowMs)
                (fst (listTasks (projectFilter projectId) nowMs d))
                \<lparr> ps_db = clearExpiredLocks nowMs d, ps_dir = dir0, ps_hwm = readHighWaterMark dir0,
                  ps_prefixCounter = pc, ps_pushed = 0, ps_errors = [] \<rparr>;
          dir1 = writeHighWaterMark (ps_dir s) (ps_hwm s);
          dir2 = (case prefixConfig of None \<Rightarrow> dir1
                  | Some cfg \<Rightarrow> dir1\<lparr>prefix_counter_file := Some (ps_prefixCounter s)\<rparr>)
      in (\<lparr>pushed = ps_pushed s, pulled = 0, errors = ps_errors s\<rparr>, dir2, ps_db s))"
    using pushToClaudeTaskList_fold by blast
  define s0 where "s0 = \<lparr> ps_db = clearExpiredLocks nowMs d, ps_dir = dir,
                           ps_hwm = readHighWaterMark dir, ps_prefixCounter = pc,
                           ps_pushed = 0, ps_errors = [] \<rparr>"
  define s where "s = fold (pushTask (case preferOpt of None \<Rightarrow> Remote | Some p \<Rightarrow> p) prefixConfig
                             (existingByTodosId dir) nowMs)
                        (fst (listTasks (projectFilter projectId) nowMs d)) s0"
  have pre: "\<forall>task \<in> set (fst (listTasks (projectFilter projectId) nowMs d)).
             \<exists>existing mtime.
               existingByTodosId dir (tid task) = Some (existing, mtime)
               \<and> \<not> conflictDetected (parseTimestamp (ct_metadata existing ''todos_updated_at''))
                     (Some (updated_at task)) mtime
               \<and> ct_id existing @ ''.json'' \<in> fst ` set (json_files (ps_dir s0))"
  proof
    fix task
    assume "task \<in> set (fst (listTasks (projectFilter projectId) nowMs d))"
    with assms obtain existing mtime where
      "existingByTodosId dir (tid task) = Some (existing, mtime)"
      "parseTimestamp (ct_metadata existing ''todos_updated_at'') = Some (updated_at task)"
      "ct_id existing @ ''.json'' \<in> fst ` set (json_files dir)"
      by blast
    then show "\<exists>existing mtime.
               existingByTodosId dir (tid task) = Some (existing, mtime)
               \<and> \<not> conflictDetected (parseTimestamp (ct_metadata existing ''todos_updated_at''))
                     (Some (updated_at task)) mtime
               \<and> ct_id existing @ ''.json'' \<in> fst ` set (json_files (ps_dir s0))"
      by (auto simp: conflictDetected_def s0_def split: option.splits)
  qed
  have inv: "ps_pushed s = length (fst (listTasks (projectFilter projectId) nowMs d))"
    "ps_errors s = []" "ps_hwm s = readHighWaterMark dir" "ps_db s = clearExpiredLocks nowMs d"
    "map fst (json_files (ps_dir s)) = map fst (json_files dir)"
    using fold_pushTask_in_sync[where existingMap = "existingByTodosId dir" and s = s0, OF pre,
            of "case preferOpt of None \<Rightarrow> Remote | Some p \<Rightarrow> p" prefixConfig nowMs]
    by (simp_all add: s_def s0_def)
  have res: "pushToClaudeTaskList (Some dir) projectId preferOpt prefixConfig nowMs d
               = (\<lparr>pushed = ps_pushed s, pulled = 0, errors = ps_errors s\<rparr>,
                  (case prefixConfig of
                     None \<Rightarrow> writeHighWaterMark (ps_dir s) (ps_hwm s)
                   | Some cfg \<Rightarrow> (writeHighWaterMark (ps_dir s) (ps_hwm s))
                                   \<lparr>prefix_counter_file := Some (ps_prefixCounter s)\<rparr>),
                  ps_db s)"
    unfolding run by (cases prefixConfig) (simp_all add: Let_def s_def s0_def)
  show ?thesis
    unfolding res using inv
    by (cases prefixConfig) (simp_all add: writeHighWaterMark_def readHighWaterMark_def)
qed

lemma pushToClaudeTaskList_at_most_100:
  "pushed (fst (pushToClaudeTaskList dir projectId preferOpt prefixConfig nowMs d)) \<le> 100"
proof -
  obtain pc where run: "pushToClaudeTaskList dir projectId preferOpt prefixConfig nowMs d =
     (let dir0 = (case dir of
                    None \<Rightarrow> \<lparr>json_files = [], highwatermark_file = None, prefix_counter_file = None\<rparr>
                  | Some x \<Rightarrow> x);
          s = fold (pushTask (case preferOpt of None \<Rightarrow> Remote | Some p \<Rightarrow> p) prefixConfig
                      (existingByTodosId dir0) nowMs)
                (fst (listTasks (projectFilter projectId) nowMs d))
                \<lparr> ps_db = clearExpiredLocks nowMs d, ps_dir = dir0, ps_hwm = readHighWaterMark dir0,
                  ps_prefixCounter = pc, ps_pushed = 0, ps_errors = [] \<rparr>;
          dir1 = writeHighWaterMark (ps_dir s) (ps_hwm s);
          dir2 = (case prefixConfig of None \<Rightarrow> dir1
                  | Some cfg \<Rightarrow> dir1\<lparr>prefix_counter_file := Some (ps_prefixCounter s)\<rparr>)
      in (\<lparr>pushed = ps_pushed s, pulled = 0, errors = ps_errors s\<rparr>, dir2, ps_db s))"
    using pushToClaudeTaskList_fold by blast
  have len: "length (fst (listTasks (projectFilter projectId) nowMs d)) \<le> 100"
    by (rule listTasks_no_limit_length) (simp add: projectFilter_def)
  define dir0 where "dir0 = (case dir of
                    None \<Rightarrow> \<lparr>json_files = [], highwatermark_file = None, prefix_counter_file = None\<rparr>
                  | Some x \<Rightarrow> x)"
  define s0 where "s0 = \<lparr> ps_db = clearExpiredLocks nowMs d, ps_dir = dir0,
                           ps_hwm = readHighWaterMark dir0, ps_prefixCounter = pc,
                           ps_pushed = 0, ps_errors = [] \<rparr>"
  define s where "s = fold (pushTask (case preferOpt of None \<Rightarrow> Remote | Some p \<Rightarrow> p) prefixConfig
                             (existingByTodosId dir0) nowMs)
                        (fst (listTasks (projectFilter projectId) nowMs d)) s0"
  have "ps_pushed s \<le> ps_pushed s0 + length (fst (listTasks (projectFilter projectId) nowMs d))"
    unfolding s_def by (rule fold_pushTask_pushed_le)
  then have le: "ps_pushed s \<le> 100" using len by (simp add: s0_def)
  have "pushed (fst (pushToClaudeTaskList dir projectId preferOpt prefixConfig nowMs d)) = ps_pushed s"
    unfolding run by (simp add: Let_def s_def s0_def dir0_def)
  with le show ?thesis by simp
qed

lemma updateTask_metadata_result:
  assumes "getTask i d = Some task"
  shows "\<exists>d'. updateTask i (metadataInput (version task) m) ts d
                 = (Inr (Some (updateSets (metadataInput (version task) m) ts task)), d')
              \<and> getTask i d' = Some (updateSets (metadataInput (version task) m) ts task)"
proof -
  let ?inp = "metadataInput (version task) m"
  let ?c = "\<lambda>r. tid r = i \<and> version r = in_version ?inp"
  have v: "version task = in_version ?inp" by (simp add: metadataInput_def)
  have nt: "in_tags ?inp = None" by (simp add: metadataInput_def)
  have tid: "tid task = i" using assms by (rule getTask_tid)
  have run: "updateTask i ?inp ts d
               = (Inr (Some (updateSets ?inp ts task)), fst (sqlUpdate ?c (updateSets ?inp ts) d))"
    using updateTask_success[OF assms v, of ts] nt by (simp add: metadataInput_def)
  have "getTask i (fst (sqlUpdate ?c (updateSets ?inp ts) d)) = Some (updateSets ?inp ts task)"
    using getTask_sqlUpdate[OF assms, of "updateSets ?inp ts" ?c] tid v by simp
  with run show ?thesis by blast
qed



lemma pushTask_conflict:
  assumes e: "existingMap (tid task) = Some (existing, Some remote)"
    and c: "conflictDetected (parseTimestamp (ct_metadata existing ''todos_updated_at''))
              (Some (updated_at task)) (Some remote)"
    and g: "getTask (tid task) (ps_db s) = Some task"
  shows "getTask (tid task) (ps_db (pushTask pref prefixConfig existingMap nowMs task s))
           = Some (updateSets
                     (metadataInput (version task)
                        (appendSyncConflict (metadata task)
                           (pushConflict pref (updated_at task) (Some remote) nowMs) 5))
                     nowMs task)"
proof -
  let ?m = "appendSyncConflict (metadata task) (pushConflict pref (updated_at task) (Some remote) nowMs) 5"
  let ?t' = "updateSets (metadataInput (version task) ?m) nowMs task"
  from updateTask_metadata_result[OF g, of ?m nowMs]
  obtain d' where u: "updateTask (tid task) (metadataInput (version task) ?m) nowMs (ps_db s)
                        = (Inr (Some ?t'), d')"
    and g': "getTask (tid task) d' = Some ?t'"
    by blast
  show ?thesis
  proof (cases pref)
    case Remote
    then show ?thesis using e c u g' by (simp add: pushTask_def Let_def)
  next
    case Local
    then show ?thesis using e c g u g' by (simp add: pushTask_def Let_def)
  qed
qed

lemma mirrorRecord_fields:
  "ct_id mirrorRecord = ''1''"
  "ct_metadata mirrorRecord ''todos_id'' = Some (JStr ''A'')"
  "parseTimestamp (ct_metadata mirrorRecord ''todos_updated_at'') = Some 1000"
  by (simp_all add: mirrorRecord_def taskToClaudeTask_def mirroredTask_def sampleTask_def)

lemma existingByTodosId_syncedDir:
  "existingByTodosId syncedDir ''A'' = Some (mirrorRecord, Some 1000)"
  by (simp add: existingByTodosId_def syncedDir_def getFileMtimeMs_def mirrorRecord_fields)


lemma listTasks_syncedDb:
  "listTasks (projectFilter None) 5000 syncedDb = ([mirroredTask], syncedDb)"
  by (simp add: listTasks_def clearExpiredLocks_def sqlUpdate_def syncedDb_def mirroredTask_def
        sampleTask_def projectFilter_def filterMatches_def columnEquals_def truthy_def
        sqlLimitOffset_def sqlLess_def)

text \<open>
  Claim C10. With no limit in the filter \<open>listTasks\<close> returns at most 100 tasks, however
  many match: the first 100 of the matching rows ordered by priority (critical, high,
  medium, low) and, within a priority, by \<open>created_at\<close> descending. Only an explicit limit
  returns more. The listing of the push pass has no limit, so a push pass handles at most
  100 tasks.
\<close>

theorem listTasks_default_limit:
  "(f_limit f = None \<longrightarrow> length (fst (listTasks f nowMs d)) \<le> 100)
   \<and> (f_limit f = None \<and> f_offset f = None
       \<longrightarrow> fst (listTasks f nowMs d)
            = take 100 (sort_key orderKey
                          (filter (filterMatches f (clearExpiredLocks nowMs d))
                             (tasks (clearExpiredLocks nowMs d)))))
   \<and> (\<forall>n. f_limit f = Some n \<and> 0 < n \<and> f_offset f = None
       \<longrightarrow> fst (listTasks f nowMs d)
            = take (nat n) (sort_key orderKey
                              (filter (filterMatches f (clearExpiredLocks nowMs d))
                                 (tasks (clearExpiredLocks nowMs d)))))
   \<and> sorted_wrt (\<lambda>a b. priorityRank (priority a) < priorityRank (priority b)
                      \<or> (priority a = priority b \<and> created_at b \<le> created_at a))
        (fst (listTasks f nowMs d))
   \<and> pushed (fst (pushToClaudeTaskList dir projectId preferOpt prefixConfig nowMs d)) \<le> 100"
proof (intro conjI allI impI)
  assume "f_limit f = None"
  then show "length (fst (listTasks f nowMs d)) \<le> 100"
    by (rule listTasks_no_limit_length)
next
  assume "f_limit f = None \<and> f_offset f = None"
  then show "fst (listTasks f nowMs d)
            = take 100 (sort_key orderKey
                          (filter (filterMatches f (clearExpiredLocks nowMs d))
                             (tasks (clearExpiredLocks nowMs d))))"
    by (simp add: listTasks_no_limit_rows)
next
  fix n
  assume "f_limit f = Some n \<and> 0 < n \<and> f_offset f = None"
  then show "fst (listTasks f nowMs d)
            = take (nat n) (sort_key orderKey
                              (filter (filterMatches f (clearExpiredLocks nowMs d))
                                 (tasks (clearExpiredLocks nowMs d))))"
    by (simp add: listTasks_limit_rows)
next
  show "sorted_wrt (\<lambda>a b. priorityRank (priority a) < priorityRank (priority b)
                      \<or> (priority a = priority b \<and> created_at b \<le> created_at a))
        (fst (listTasks f nowMs d))"
    by (rule listTasks_ordered)
next
  show "pushed (fst (pushToClaudeTaskList dir projectId preferOpt prefixConfig nowMs d)) \<le> 100"
    by (rule pushToClaudeTaskList_at_most_100)
qed

lemma manyDb_rows:
  "filter (filterMatches (projectFilter None\<lparr>f_limit := limitN\<rparr>) (clearExpiredLocks nowMs (manyDb n)))
     (tasks (clearExpiredLocks nowMs (manyDb n)))
   = tasks (clearExpiredLocks nowMs (manyDb n))"
  "length (tasks (clearExpiredLocks nowMs (manyDb n))) = n"
  by (simp_all add: filterMatches_def projectFilter_def columnEquals_def truthy_def
        clearExpiredLocks_def sqlUpdate_def manyDb_def)

text \<open>
  C10 on a store of 150 tasks: without a limit 100 tasks are returned, with the limit 150
  all of them.
\<close>

theorem listTasks_default_limit_witness:
  "f_limit (projectFilter None) = None \<and> f_offset (projectFilter None) = None
   \<and> length (tasks (manyDb 150)) = 150
   \<and> length (fst (listTasks (projectFilter None) 2000 (manyDb 150))) = 100
   \<and> f_limit (projectFilter None\<lparr>f_limit := Some 150\<rparr>) = Some 150 \<and> (0::int) < 150
   \<and> f_offset (projectFilter None\<lparr>f_limit := Some 150\<rparr>) = None
   \<and> length (fst (listTasks (projectFilter None\<lparr>f_limit := Some 150\<rparr>) 2000 (manyDb 150))) = 150"
proof -
  have h1: "f_limit (projectFilter None) = None \<and> f_offset (projectFilter None) = None"
    by (simp add: projectFilter_def)
  have h2: "f_limit (projectFilter None\<lparr>f_limit := Some 150\<rparr>) = Some 150 \<and> (0::int) < 150
            \<and> f_offset (projectFilter None\<lparr>f_limit := Some 150\<rparr>) = None"
    by (simp add: projectFilter_def)
  have n: "length (tasks (manyDb 150)) = 150" by (simp add: manyDb_def)
  have same: "projectFilter None = projectFilter None\<lparr>f_limit := None\<rparr>"
    by (simp add: projectFilter_def)
  have r1: "length (fst (listTasks (projectFilter None) 2000 (manyDb 150))) = 100"
    using listTasks_default_limit[of "projectFilter None" 2000 "manyDb 150",
            THEN conjunct2, THEN conjunct1, rule_format, OF h1]
      manyDb_rows(1)[of None 2000 150] manyDb_rows(2)[of 2000 150] same
    by simp
  have r2: "length (fst (listTasks (projectFilter None\<lparr>f_limit := Some 150\<rparr>) 2000 (manyDb 150))) = 150"
    using listTasks_default_limit[of "projectFilter None\<lparr>f_limit := Some 150\<rparr>" 2000 "manyDb 150",
            THEN conjunct2, THEN conjunct2, THEN conjunct1, rule_format, OF h2]
      manyDb_rows(1)[of "Some 150" 2000 150] manyDb_rows(2)[of 2000 150]
    by simp
  from h1 n r1 h2 r2 show ?thesis by simp
qed

lemma getTask_updateTask_other:
  assumes "j \<noteq> i"
  shows "getTask j (snd (updateTask i inp ts d)) = getTask j d"
proof (cases "getTask i d")
  case None
  then show ?thesis by (simp add: updateTask_def)
next
  case (Some task)
  show ?thesis
  proof (cases "version task = in_version inp")
    case False
    with Some show ?thesis by (simp add: updateTask_def)
  next
    case True
    show ?thesis
    proof (cases "foreignKeyHolds (plans d) (in_plan_id inp)
                  \<and> foreignKeyHolds (task_lists d) (in_task_list_id inp)")
      case fk: True
      have "snd (updateTask i inp ts d)
              = (case in_tags inp of None \<Rightarrow> (\<lambda>x. x) | Some tgs \<Rightarrow> replaceTaskTags i tgs)
                  (fst (sqlUpdate (\<lambda>r. tid r = i \<and> version r = in_version inp) (updateSets inp ts) d))"
        using updateTask_success[OF Some True, of ts] fk by simp
      then show ?thesis
        using getTask_sqlUpdate_other[OF assms, of "updateSets inp ts" "\<lambda>r. version r = in_version inp" d]
        by (cases "in_tags inp") simp_all
    next
      case False
      from updateTask_foreign_key[OF Some True False, of ts] show ?thesis by simp
    qed
  qed
qed

lemma pushTask_other:
  assumes "j \<noteq> tid task"
  shows "getTask j (ps_db (pushTask pref prefixConfig existingMap nowMs task s)) = getTask j (ps_db s)"
proof -
  have u: "getTask j (snd (updateTask (tid task) inp ts d)) = getTask j d" for inp ts d
    using assms by (rule getTask_updateTask_other)
  have u': "updateTask (tid task) inp ts d = (r, d1) \<Longrightarrow> getTask j d1 = getTask j d" for inp ts d r d1
    using u[of inp ts d] by simp
  have l: "getTask (tid task) d = Some latest \<Longrightarrow> tid latest = tid task" for d latest
    by (rule getTask_tid)
  show ?thesis
  proof (cases "existingMap (tid task)")
    case None
    then show ?thesis
      by (auto simp: pushTask_def Let_def pushCaught_def dest: u'
               split: option.splits prod.splits sum.splits)
  next
    case (Some em)
    obtain existing mtime where em: "em = (existing, mtime)" by (cases em)
    show ?thesis
    proof (cases "conflictDetected (parseTimestamp (ct_metadata existing ''todos_updated_at''))
                    (Some (updated_at task)) mtime")
      case False
      then show ?thesis
        using Some em
        by (simp add: pushTask_rewrite[where existingMap = existingMap and existing = existing
                                         and mtime = mtime])
    next
      case True
      show ?thesis
      proof (cases pref)
        case Remote
        then show ?thesis
          using Some em True
          by (auto simp: pushTask_def Let_def pushCaught_def dest: u'
                   split: prod.splits sum.splits)
      next
        case Local
        show ?thesis
        proof (cases "getTask (tid task) (ps_db s)")
          case None
          then show ?thesis
            using Some em True Local by (simp add: pushTask_def Let_def)
        next
          case latest: (Some latest)
          have tl: "tid latest = tid task" using latest by (rule l)
          show ?thesis
            using Some em True Local latest tl
            by (auto simp: pushTask_def Let_def pushCaught_def dest: u'
                     split: prod.splits sum.splits)
        qed
      qed
    qed
  qed
qed

lemma fold_pushTask_other:
  "j \<notin> tid ` set ts
   \<Longrightarrow> getTask j (ps_db (fold (pushTask pref prefixConfig existingMap nowMs) ts s))
       = getTask j (ps_db s)"
proof (induction ts arbitrary: s)
  case Nil
  show ?case by simp
next
  case (Cons t ts)
  have "getTask j (ps_db (fold (pushTask pref prefixConfig existingMap nowMs) ts
                            (pushTask pref prefixConfig existingMap nowMs t s)))
          = getTask j (ps_db (pushTask pref prefixConfig existingMap nowMs t s))"
    using Cons.prems by (intro Cons.IH) simp
  also have "\<dots> = getTask j (ps_db s)"
    using Cons.prems by (intro pushTask_other) auto
  finally show ?case by simp
qed

lemma find_distinct_tid:
  "distinct (map tid rows) \<Longrightarrow> t \<in> set rows \<Longrightarrow> find (\<lambda>r. tid r = tid t) rows = Some t"
proof (induction rows)
  case Nil
  then show ?case by simp
next
  case (Cons r rows)
  show ?case
  proof (cases "t = r")
    case True
    then show ?thesis by simp
  next
    case False
    then have "t \<in> set rows" using Cons.prems(2) by simp
    moreover have "tid r \<notin> tid ` set rows" using Cons.prems(1) by simp
    ultimately have "tid r \<noteq> tid t" by blast
    then show ?thesis using Cons \<open>t \<in> set rows\<close> by simp
  qed
qed

lemma map_tid_clearExpiredLocks:
  "map tid (tasks (clearExpiredLocks nowMs d)) = map tid (tasks d)"
  by (simp add: clearExpiredLocks_def sqlUpdate_def comp_def)

lemma distinct_map_sort_key:
  "distinct (map f (sort_key k xs)) = distinct (map f xs)"
  by (simp add: distinct_map)

lemma distinct_map_sqlLimitOffset:
  "distinct (map f xs) \<Longrightarrow> distinct (map f (sqlLimitOffset limitN off xs))"
  by (simp add: sqlLimitOffset_def Let_def take_map[symmetric] drop_map[symmetric] del: take_map drop_map)

lemma set_sqlLimitOffset: "set (sqlLimitOffset limitN off xs) \<subseteq> set xs"
  by (auto simp: sqlLimitOffset_def Let_def dest: in_set_takeD in_set_dropD)

lemma listTasks_rows:
  assumes "distinct (map tid (tasks d))"
  shows "distinct (map tid (fst (listTasks f nowMs d)))"
    and "\<forall>t \<in> set (fst (listTasks f nowMs d)).
           getTask (tid t) (clearExpiredLocks nowMs d) = Some t"
proof -
  let ?d1 = "clearExpiredLocks nowMs d"
  have d1: "distinct (map tid (tasks ?d1))"
    using assms by (simp add: map_tid_clearExpiredLocks)
  then have "distinct (map tid (sort_key orderKey (filter (filterMatches f ?d1) (tasks ?d1))))"
    by (simp add: distinct_map_sort_key distinct_map_filter)
  then show "distinct (map tid (fst (listTasks f nowMs d)))"
    by (simp add: listTasks_def Let_def distinct_map_sqlLimitOffset)
  have "set (fst (listTasks f nowMs d)) \<subseteq> set (tasks ?d1)"
    using set_sqlLimitOffset[of _ _ "sort_key orderKey (filter (filterMatches f ?d1) (tasks ?d1))"]
    by (auto simp: listTasks_def Let_def)
  then show "\<forall>t \<in> set (fst (listTasks f nowMs d)). getTask (tid t) ?d1 = Some t"
    using find_distinct_tid[OF d1] by (auto simp: getTask_def)
qed

lemma pushTask_row:
  assumes e: "existingMap (tid task) = Some (existing, mtime)"
    and g: "getTask (tid task) (ps_db s) = Some task"
  shows "getTask (tid task) (ps_db (pushTask pref prefixConfig existingMap nowMs task s))
           = Some (if conflictDetected (parseTimestamp (ct_metadata existing ''todos_updated_at''))
                        (Some (updated_at task)) mtime
                   then updateSets
                          (metadataInput (version task)
                             (appendSyncConflict (metadata task)
                                (pushConflict pref (updated_at task) mtime nowMs) 5))
                          nowMs task
                   else task)"
proof (cases "conflictDetected (parseTimestamp (ct_metadata existing ''todos_updated_at''))
                (Some (updated_at task)) mtime")
  case True
  then obtain remote where r: "mtime = Some remote"
    by (auto simp: conflictDetected_def split: option.splits)
  show ?thesis
    using True r
      pushTask_conflict[where existingMap = existingMap and existing = existing
                          and remote = remote and task = task and s = s,
                        of pref prefixConfig nowMs] e g
    by simp
next
  case False
  then show ?thesis
    using e g
    by (simp add: pushTask_rewrite[where existingMap = existingMap and existing = existing
                                     and mtime = mtime])
qed

lemma fold_pushTask_row:
  assumes "distinct (map tid ts)"
    and "\<forall>t \<in> set ts. getTask (tid t) (ps_db s) = Some t"
    and "task \<in> set ts"
    and "existingMap (tid task) = Some (existing, mtime)"
  shows "getTask (tid task) (ps_db (fold (pushTask pref prefixConfig existingMap nowMs) ts s))
           = Some (if conflictDetected (parseTimestamp (ct_metadata existing ''todos_updated_at''))
                        (Some (updated_at task)) mtime
                   then updateSets
                          (metadataInput (version task)
                             (appendSyncConflict (metadata task)
                                (pushConflict pref (updated_at task) mtime nowMs) 5))
                          nowMs task
                   else task)"
  using assms(1,2,3)
proof (induction ts arbitrary: s)
  case Nil
  then show ?case by simp
next
  case (Cons a ts)
  define s1 where "s1 = pushTask pref prefixConfig existingMap nowMs a s"
  have na: "tid a \<notin> tid ` set ts" using Cons.prems(1) by simp
  show ?case
  proof (cases "task = a")
    case True
    have "getTask (tid task) (ps_db (fold (pushTask pref prefixConfig existingMap nowMs) ts s1))
            = getTask (tid task) (ps_db s1)"
      using na True by (intro fold_pushTask_other) simp
    moreover have "getTask (tid task) (ps_db s) = Some task"
      using Cons.prems(2) True by simp
    ultimately show ?thesis
      using pushTask_row[where existingMap = existingMap and task = task and existing = existing
                           and mtime = mtime and s = s, OF assms(4), of pref prefixConfig nowMs] True
      by (simp add: s1_def)
  next
    case False
    then have mem: "task \<in> set ts" using Cons.prems(3) by simp
    have rows: "\<forall>t \<in> set ts. getTask (tid t) (ps_db s1) = Some t"
    proof
      fix t
      assume t: "t \<in> set ts"
      then have "tid t \<noteq> tid a" using na by (metis imageI)
      then have "getTask (tid t) (ps_db s1) = getTask (tid t) (ps_db s)"
        unfolding s1_def by (rule pushTask_other)
      then show "getTask (tid t) (ps_db s1) = Some t"
        using Cons.prems(2) t by simp
    qed
    have "distinct (map tid ts)" using Cons.prems(1) by simp
    from Cons.IH[OF this rows mem] show ?thesis
      by (simp add: s1_def)
  qed
qed

lemma pushToClaudeTaskList_row:
  assumes "distinct (map tid (tasks d))"
    and "task \<in> set (fst (listTasks (projectFilter projectId) nowMs d))"
    and "existingByTodosId dir (tid task) = Some (existing, mtime)"
  shows "getTask (tid task)
           (snd (snd (pushToClaudeTaskList (Some dir) projectId preferOpt prefixConfig nowMs d)))
           = Some (if conflictDetected (parseTimestamp (ct_metadata existing ''todos_updated_at''))
                        (Some (updated_at task)) mtime
                   then updateSets
                          (metadataInput (version task)
                             (appendSyncConflict (metadata task)
                                (pushConflict (case preferOpt of None \<Rightarrow> Remote | Some p \<Rightarrow> p)
                                   (updated_at task) mtime nowMs) 5))
                          nowMs task
                   else task)"
proof -
  obtain pc where run: "pushToClaudeTaskList (Some dir) projectId preferOpt prefixConfig nowMs d =
     (let dir0 = (case Some dir of
                    None \<Rightarrow> \<lparr>json_files = [], highwatermark_file = None, prefix_counter_file = None\<rparr>
                  | Some x \<Rightarrow> x);
          s = fold (pushTask (case preferOpt of None \<Rightarrow> Remote | Some p \<Rightarrow> p) prefixConfig
                      (existingByTodosId dir0) nowMs)
                (fst (listTasks (projectFilter projectId) nowMs d))
                \<lparr> ps_db = clearExpiredLocks nowMs d, ps_dir = dir0, ps_hwm = readHighWaterMark dir0,
                  ps_prefixCounter = pc, ps_pushed = 0, ps_errors = [] \<rparr>;
          dir1 = writeHighWaterMark (ps_dir s) (ps_hwm s);
          dir2 = (case prefixConfig of None \<Rightarrow> dir1
                  | Some cfg \<Rightarrow> dir1\<lparr>prefix_counter_file := Some (ps_prefixCounter s)\<rparr>)
      in (\<lparr>pushed = ps_pushed s, pulled = 0, errors = ps_errors s\<rparr>, dir2, ps_db s))"
    using pushToClaudeTaskList_fold by blast
  define s0 where "s0 = \<lparr> ps_db = clearExpiredLocks nowMs d, ps_dir = dir,
                           ps_hwm = readHighWaterMark dir, ps_prefixCounter = pc,
                           ps_pushed = 0, ps_errors = [] \<rparr>"
  have db: "snd (snd (pushToClaudeTaskList (Some dir) projectId preferOpt prefixConfig nowMs d))
              = ps_db (fold (pushTask (case preferOpt of None \<Rightarrow> Remote | Some p \<Rightarrow> p) prefixConfig
                               (existingByTodosId dir) nowMs)
                         (fst (listTasks (projectFilter projectId) nowMs d)) s0)"
    unfolding run by (simp add: Let_def s0_def)
  have rows: "\<forall>t \<in> set (fst (listTasks (projectFilter projectId) nowMs d)).
                getTask (tid t) (ps_db s0) = Some t"
    using listTasks_rows(2)[OF assms(1)] by (simp add: s0_def)
  show ?thesis
    unfolding db
    by (rule fold_pushTask_row[where existingMap = "existingByTodosId dir" and s = s0,
               OF listTasks_rows(1)[OF assms(1)] rows assms(2,3)])
qed




subsection \<open>Repeating the push pass\<close>

lemma map_of_writeFile: "map_of (writeFile p mf fs) = (map_of fs)(p \<mapsto> mf)"
  by (induction fs) (auto simp: fun_eq_iff)

lemma ct_id_updatedRecord [simp]: "ct_id (updatedRecord task existing) = ct_id existing"
  by (simp add: updatedRecord_def taskToClaudeTask_def)

lemma pushTask_mapped:
  assumes e: "existingMap (tid task) = Some (existing, mtime)"
    and g: "getTask (tid task) (ps_db s) = Some task"
  shows "ps_pushed (pushTask pref prefixConfig existingMap nowMs task s)
           = (if pref = Remote \<and> pushConflictDetected existingMap task
              then ps_pushed s else ps_pushed s + 1)"
    and "ps_errors (pushTask pref prefixConfig existingMap nowMs task s)
           = (if pref = Remote \<and> pushConflictDetected existingMap task
              then ps_errors s @ [conflictMessage task] else ps_errors s)"
    and "ps_dir (pushTask pref prefixConfig existingMap nowMs task s)
           = (if pref = Remote \<and> pushConflictDetected existingMap task
              then ps_dir s else writeClaudeTask (ps_dir s) (updatedRecord task existing) nowMs)"
    and "ps_hwm (pushTask pref prefixConfig existingMap nowMs task s) = ps_hwm s"
    and "ps_prefixCounter (pushTask pref prefixConfig existingMap nowMs task s) = ps_prefixCounter s"
proof -
  let ?c = "conflictDetected (parseTimestamp (ct_metadata existing ''todos_updated_at''))
              (Some (updated_at task)) mtime"
  have pc: "pushConflictDetected existingMap task = ?c"
    using e by (simp add: pushConflictDetected_def)
  have all: "ps_pushed (pushTask pref prefixConfig existingMap nowMs task s)
           = (if pref = Remote \<and> ?c then ps_pushed s else ps_pushed s + 1)
    \<and> ps_errors (pushTask pref prefixConfig existingMap nowMs task s)
           = (if pref = Remote \<and> ?c then ps_errors s @ [conflictMessage task] else ps_errors s)
    \<and> ps_dir (pushTask pref prefixConfig existingMap nowMs task s)
           = (if pref = Remote \<and> ?c
              then ps_dir s else writeClaudeTask (ps_dir s) (updatedRecord task existing) nowMs)
    \<and> ps_hwm (pushTask pref prefixConfig existingMap nowMs task s) = ps_hwm s
    \<and> ps_prefixCounter (pushTask pref prefixConfig existingMap nowMs task s) = ps_prefixCounter s"
  proof (cases ?c)
    case False
    then show ?thesis
      using e
      by (simp add: pushTask_rewrite[where existingMap = existingMap and existing = existing
                                       and mtime = mtime] updatedRecord_def)
  next
    case True
    let ?m = "appendSyncConflict (metadata task) (pushConflict pref (updated_at task) mtime nowMs) 5"
    from updateTask_metadata_result[OF g, of ?m nowMs]
    obtain d' where u: "updateTask (tid task) (metadataInput (version task) ?m) nowMs (ps_db s)
                          = (Inr (Some (updateSets (metadataInput (version task) ?m) nowMs task)), d')"
      by blast
    show ?thesis
    proof (cases pref)
      case Remote
      then show ?thesis using e True u
        by (simp add: pushTask_def Let_def conflictMessage_def)
    next
      case Local
      then show ?thesis using e True g u
        by (simp add: pushTask_def Let_def updatedRecord_def)
    qed
  qed
  show "ps_pushed (pushTask pref prefixConfig existingMap nowMs task s)
           = (if pref = Remote \<and> pushConflictDetected existingMap task
              then ps_pushed s else ps_pushed s + 1)"
    and "ps_errors (pushTask pref prefixConfig existingMap nowMs task s)
           = (if pref = Remote \<and> pushConflictDetected existingMap task
              then ps_errors s @ [conflictMessage task] else ps_errors s)"
    and "ps_dir (pushTask pref prefixConfig existingMap nowMs task s)
           = (if pref = Remote \<and> pushConflictDetected existingMap task
              then ps_dir s else writeClaudeTask (ps_dir s) (updatedRecord task existing) nowMs)"
    and "ps_hwm (pushTask pref prefixConfig existingMap nowMs task s) = ps_hwm s"
    and "ps_prefixCounter (pushTask pref prefixConfig existingMap nowMs task s) = ps_prefixCounter s"
    using all unfolding pc by simp_all
qed


lemma fold_pushTask_mapped:
  assumes "distinct (map tid ts)"
    and "\<forall>t \<in> set ts. getTask (tid t) (ps_db s) = Some t"
    and "\<forall>t \<in> set ts. \<exists>e m. existingMap (tid t) = Some (e, m)
                            \<and> ct_id e @ ''.json'' \<in> fst ` set (json_files (ps_dir s))"
  shows "ps_pushed (fold (pushTask pref prefixConfig existingMap nowMs) ts s)
           = ps_pushed s
             + length (filter (\<lambda>t. \<not> (pref = Remote \<and> pushConflictDetected existingMap t)) ts)
         \<and> ps_errors (fold (pushTask pref prefixConfig existingMap nowMs) ts s)
           = ps_errors s
             @ map conflictMessage
                 (filter (\<lambda>t. pref = Remote \<and> pushConflictDetected existingMap t) ts)
         \<and> ps_hwm (fold (pushTask pref prefixConfig existingMap nowMs) ts s) = ps_hwm s
         \<and> ps_prefixCounter (fold (pushTask pref prefixConfig existingMap nowMs) ts s)
             = ps_prefixCounter s
         \<and> map fst (json_files (ps_dir (fold (pushTask pref prefixConfig existingMap nowMs) ts s)))
             = map fst (json_files (ps_dir s))"
  using assms
proof (induction ts arbitrary: s)
  case Nil
  show ?case by simp
next
  case (Cons a ts)
  define s1 where "s1 = pushTask pref prefixConfig existingMap nowMs a s"
  from Cons.prems(3) obtain e m where
    e: "existingMap (tid a) = Some (e, m)"
    and nm: "ct_id e @ ''.json'' \<in> fst ` set (json_files (ps_dir s))"
    by auto
  have g: "getTask (tid a) (ps_db s) = Some a" using Cons.prems(2) by simp
  note step = pushTask_mapped[where existingMap = existingMap and task = a and existing = e
                                and mtime = m and s = s, OF e g, of pref prefixConfig nowMs,
                              folded s1_def]
  have names: "map fst (json_files (ps_dir s1)) = map fst (json_files (ps_dir s))"
    unfolding step(3) using nm by (simp add: writeClaudeTask_def writeFile_names)
  then have names': "fst ` set (json_files (ps_dir s1)) = fst ` set (json_files (ps_dir s))"
    by (metis list.set_map)
  have na: "tid a \<notin> tid ` set ts" using Cons.prems(1) by simp
  have rows: "\<forall>t \<in> set ts. getTask (tid t) (ps_db s1) = Some t"
  proof
    fix t
    assume t: "t \<in> set ts"
    then have "tid t \<noteq> tid a" using na by (metis imageI)
    then have "getTask (tid t) (ps_db s1) = getTask (tid t) (ps_db s)"
      unfolding s1_def by (rule pushTask_other)
    then show "getTask (tid t) (ps_db s1) = Some t"
      using Cons.prems(2) t by simp
  qed
  have mapped: "\<forall>t \<in> set ts. \<exists>e m. existingMap (tid t) = Some (e, m)
                            \<and> ct_id e @ ''.json'' \<in> fst ` set (json_files (ps_dir s1))"
    using Cons.prems(3) names' by simp
  have dist: "distinct (map tid ts)" using Cons.prems(1) by simp
  from Cons.IH[OF dist rows mapped] step(1,2,4,5) names
  show ?case by (simp add: s1_def)
qed

lemma fold_pushTask_file_other:
  assumes "distinct (map tid ts)"
    and "\<forall>t \<in> set ts. getTask (tid t) (ps_db s) = Some t"
    and "\<forall>t \<in> set ts. \<exists>e m. existingMap (tid t) = Some (e, m) \<and> ct_id e \<noteq> c"
  shows "map_of (json_files (ps_dir (fold (pushTask pref prefixConfig existingMap nowMs) ts s)))
           (c @ ''.json'')
         = map_of (json_files (ps_dir s)) (c @ ''.json'')"
  using assms
proof (induction ts arbitrary: s)
  case Nil
  show ?case by simp
next
  case (Cons a ts)
  define s1 where "s1 = pushTask pref prefixConfig existingMap nowMs a s"
  from Cons.prems(3) obtain e m where
    e: "existingMap (tid a) = Some (e, m)" and ne: "ct_id e \<noteq> c"
    by auto
  have g: "getTask (tid a) (ps_db s) = Some a" using Cons.prems(2) by simp
  note step = pushTask_mapped[where existingMap = existingMap and task = a and existing = e
                                and mtime = m and s = s, OF e g, of pref prefixConfig nowMs,
                              folded s1_def]
  have fl: "map_of (json_files (ps_dir s1)) (c @ ''.json'')
                = map_of (json_files (ps_dir s)) (c @ ''.json'')"
    unfolding step(3) using ne by (simp add: writeClaudeTask_def map_of_writeFile)
  have na: "tid a \<notin> tid ` set ts" using Cons.prems(1) by simp
  have rows: "\<forall>t \<in> set ts. getTask (tid t) (ps_db s1) = Some t"
  proof
    fix t
    assume t: "t \<in> set ts"
    then have "tid t \<noteq> tid a" using na by (metis imageI)
    then have "getTask (tid t) (ps_db s1) = getTask (tid t) (ps_db s)"
      unfolding s1_def by (rule pushTask_other)
    then show "getTask (tid t) (ps_db s1) = Some t"
      using Cons.prems(2) t by simp
  qed
  have mapped: "\<forall>t \<in> set ts. \<exists>e m. existingMap (tid t) = Some (e, m) \<and> ct_id e \<noteq> c"
    using Cons.prems(3) by simp
  have dist: "distinct (map tid ts)" using Cons.prems(1) by simp
  from Cons.IH[OF dist rows mapped] fl
  show ?case by (simp add: s1_def)
qed

lemma fold_pushTask_file:
  assumes "distinct (map tid ts)"
    and "\<forall>t \<in> set ts. getTask (tid t) (ps_db s) = Some t"
    and "\<forall>t \<in> set ts. \<exists>e m. existingMap (tid t) = Some (e, m)
                            \<and> (t \<noteq> task \<longrightarrow> ct_id e \<noteq> ct_id existing)"
    and "task \<in> set ts"
    and "existingMap (tid task) = Some (existing, mtime)"
  shows "map_of (json_files (ps_dir (fold (pushTask pref prefixConfig existingMap nowMs) ts s)))
           (ct_id existing @ ''.json'')
         = (if pref = Remote \<and> pushConflictDetected existingMap task
            then map_of (json_files (ps_dir s)) (ct_id existing @ ''.json'')
            else Some \<lparr>content = Some (updatedRecord task existing), mtimeMs = of_int nowMs\<rparr>)"
  using assms(1,2,3,4)
proof (induction ts arbitrary: s)
  case Nil
  then show ?case by simp
next
  case (Cons a ts)
  define s1 where "s1 = pushTask pref prefixConfig existingMap nowMs a s"
  have g: "getTask (tid a) (ps_db s) = Some a" using Cons.prems(2) by simp
  have na: "tid a \<notin> tid ` set ts" using Cons.prems(1) by simp
  have rows: "\<forall>t \<in> set ts. getTask (tid t) (ps_db s1) = Some t"
  proof
    fix t
    assume t: "t \<in> set ts"
    then have "tid t \<noteq> tid a" using na by (metis imageI)
    then have "getTask (tid t) (ps_db s1) = getTask (tid t) (ps_db s)"
      unfolding s1_def by (rule pushTask_other)
    then show "getTask (tid t) (ps_db s1) = Some t"
      using Cons.prems(2) t by simp
  qed
  have dist: "distinct (map tid ts)" using Cons.prems(1) by simp
  show ?case
  proof (cases "task = a")
    case True
    note step = pushTask_mapped[where existingMap = existingMap and task = a and existing = existing
                                  and mtime = mtime and s = s, OF assms(5)[unfolded True] g,
                                of pref prefixConfig nowMs, folded s1_def]
    have notin: "task \<notin> set ts" using na True by auto
    have others: "\<forall>t \<in> set ts. \<exists>e m. existingMap (tid t) = Some (e, m) \<and> ct_id e \<noteq> ct_id existing"
      using Cons.prems(3) notin by auto
    have "map_of (json_files (ps_dir (fold (pushTask pref prefixConfig existingMap nowMs) ts s1)))
            (ct_id existing @ ''.json'')
          = map_of (json_files (ps_dir s1)) (ct_id existing @ ''.json'')"
      by (rule fold_pushTask_file_other[OF dist rows others])
    also have "\<dots> = (if pref = Remote \<and> pushConflictDetected existingMap task
            then map_of (json_files (ps_dir s)) (ct_id existing @ ''.json'')
            else Some \<lparr>content = Some (updatedRecord task existing), mtimeMs = of_int nowMs\<rparr>)"
      unfolding step(3) using True by (simp add: writeClaudeTask_def map_of_writeFile)
    finally show ?thesis by (simp add: s1_def)
  next
    case False
    then have mem: "task \<in> set ts" using Cons.prems(4) by simp
    from Cons.prems(3) False obtain e m where
      e: "existingMap (tid a) = Some (e, m)" and ne: "ct_id e \<noteq> ct_id existing"
      by auto
    note step = pushTask_mapped[where existingMap = existingMap and task = a and existing = e
                                  and mtime = m and s = s, OF e g, of pref prefixConfig nowMs,
                                folded s1_def]
    have fl: "map_of (json_files (ps_dir s1)) (ct_id existing @ ''.json'')
                  = map_of (json_files (ps_dir s)) (ct_id existing @ ''.json'')"
      unfolding step(3) using ne by (simp add: writeClaudeTask_def map_of_writeFile)
    have mapped: "\<forall>t \<in> set ts. \<exists>e m. existingMap (tid t) = Some (e, m)
                            \<and> (t \<noteq> task \<longrightarrow> ct_id e \<noteq> ct_id existing)"
      using Cons.prems(3) by simp
    have "map_of (json_files (ps_dir (fold (pushTask pref prefixConfig existingMap nowMs) ts s1)))
            (ct_id existing @ ''.json'')
          = (if pref = Remote \<and> pushConflictDetected existingMap task
             then map_of (json_files (ps_dir s1)) (ct_id existing @ ''.json'')
             else Some \<lparr>content = Some (updatedRecord task existing), mtimeMs = of_int nowMs\<rparr>)"
      by (rule Cons.IH[OF dist rows mapped mem])
    then show ?thesis unfolding fl by (simp add: s1_def)
  qed
qed


text \<open>
  Claim C1, amended. Take a push pass over a store with unique task ids in which every
  listed task already has a mirror record, stored under the file name of its external id,
  as a previous push leaves them, and a listed task whose record shares its external id with
  no other listed task's record. The pass creates no mirror file, keeps the high-water mark
  and returns \<open>pulled = 0\<close>, but it is no no-op. A task for which no conflict is detected is
  written again (its record becomes the current rendering of the task and the file's
  modification time the time of the pass) and is counted in \<open>pushed\<close>; its row is left as it
  was. A task for which a conflict is detected gets a conflict entry, a new version and a
  new \<open>updated_at\<close> in the store; when the mirror is preferred (the default) its file is
  not touched, it is not counted, and the pass reports the line
  \<open>conflict push <id>: remote newer\<close> for it; when the local side is preferred it is
  written and counted. So \<open>pushed\<close> is the number of listed tasks that are not in conflict
  under the mirror's preference, and \<open>errors\<close> holds one line for each of the others.
\<close>

theorem push_again_rewrites:
  assumes "distinct (map tid (tasks d))"
    and "\<forall>t \<in> set (fst (listTasks (projectFilter projectId) nowMs d)).
           \<exists>e m. existingByTodosId dir (tid t) = Some (e, m)
                 \<and> ct_id e @ ''.json'' \<in> fst ` set (json_files dir)
                 \<and> (t \<noteq> task \<longrightarrow> ct_id e \<noteq> ct_id existing)"
    and "task \<in> set (fst (listTasks (projectFilter projectId) nowMs d))"
    and "existingByTodosId dir (tid task) = Some (existing, mtime)"
    and "pref = (case preferOpt of None \<Rightarrow> Remote | Some p \<Rightarrow> p)"
  shows "pushed (fst (pushToClaudeTaskList (Some dir) projectId preferOpt prefixConfig nowMs d))
           = length (filter (\<lambda>t. \<not> (pref = Remote \<and> pushConflictDetected (existingByTodosId dir) t))
                       (fst (listTasks (projectFilter projectId) nowMs d)))
         \<and> pulled (fst (pushToClaudeTaskList (Some dir) projectId preferOpt prefixConfig nowMs d)) = 0
         \<and> errors (fst (pushToClaudeTaskList (Some dir) projectId preferOpt prefixConfig nowMs d))
           = map conflictMessage
               (filter (\<lambda>t. pref = Remote \<and> pushConflictDetected (existingByTodosId dir) t)
                  (fst (listTasks (projectFilter projectId) nowMs d)))
         \<and> map fst (json_files (fst (snd (pushToClaudeTaskList (Some dir) projectId preferOpt
                                            prefixConfig nowMs d))))
             = map fst (json_files dir)
         \<and> readHighWaterMark (fst (snd (pushToClaudeTaskList (Some dir) projectId preferOpt
                                          prefixConfig nowMs d)))
             = readHighWaterMark dir
         \<and> map_of (json_files (fst (snd (pushToClaudeTaskList (Some dir) projectId preferOpt
                                           prefixConfig nowMs d))))
               (ct_id existing @ ''.json'')
             = (if pref = Remote \<and> pushConflictDetected (existingByTodosId dir) task
                then map_of (json_files dir) (ct_id existing @ ''.json'')
                else Some \<lparr>content = Some (updatedRecord task existing), mtimeMs = of_int nowMs\<rparr>)
         \<and> getTask (tid task)
               (snd (snd (pushToClaudeTaskList (Some dir) projectId preferOpt prefixConfig nowMs d)))
             = Some (if pushConflictDetected (existingByTodosId dir) task
                     then updateSets
                            (metadataInput (version task)
                               (appendSyncConflict (metadata task)
                                  (pushConflict pref (updated_at task) mtime nowMs) 5))
                            nowMs task
                     else task)"
proof -
  let ?listed = "fst (listTasks (projectFilter projectId) nowMs d)"
  obtain pc where run: "pushToClaudeTaskList (Some dir) projectId preferOpt prefixConfig nowMs d =
     (let dir0 = (case Some dir of
                    None \<Rightarrow> \<lparr>json_files = [], highwatermark_file = None, prefix_counter_file = None\<rparr>
                  | Some x \<Rightarrow> x);
          s = fold (pushTask (case preferOpt of None \<Rightarrow> Remote | Some p \<Rightarrow> p) prefixConfig
                      (existingByTodosId dir0) nowMs)
                (fst (listTasks (projectFilter projectId) nowMs d))
                \<lparr> ps_db = clearExpiredLocks nowMs d, ps_dir = dir0, ps_hwm = readHighWaterMark dir0,
                  ps_prefixCounter = pc, ps_pushed = 0, ps_errors = [] \<rparr>;
          dir1 = writeHighWaterMark (ps_dir s) (ps_hwm s);
          dir2 = (case prefixConfig of None \<Rightarrow> dir1
                  | Some cfg \<Rightarrow> dir1\<lparr>prefix_counter_file := Some (ps_prefixCounter s)\<rparr>)
      in (\<lparr>pushed = ps_pushed s, pulled = 0, errors = ps_errors s\<rparr>, dir2, ps_db s))"
    using pushToClaudeTaskList_fold by blast
  define s0 where "s0 = \<lparr> ps_db = clearExpiredLocks nowMs d, ps_dir = dir,
                           ps_hwm = readHighWaterMark dir, ps_prefixCounter = pc,
                           ps_pushed = 0, ps_errors = [] \<rparr>"
  define s where "s = fold (pushTask pref prefixConfig (existingByTodosId dir) nowMs) ?listed s0"
  have res: "pushToClaudeTaskList (Some dir) projectId preferOpt prefixConfig nowMs d
               = (\<lparr>pushed = ps_pushed s, pulled = 0, errors = ps_errors s\<rparr>,
                  (case prefixConfig of
                     None \<Rightarrow> writeHighWaterMark (ps_dir s) (ps_hwm s)
                   | Some cfg \<Rightarrow> (writeHighWaterMark (ps_dir s) (ps_hwm s))
                                   \<lparr>prefix_counter_file := Some (ps_prefixCounter s)\<rparr>),
                  ps_db s)"
    unfolding run by (cases prefixConfig) (simp_all add: Let_def s_def s0_def assms(5))
  have files: "json_files (fst (snd (pushToClaudeTaskList (Some dir) projectId preferOpt
                                       prefixConfig nowMs d)))
                 = json_files (ps_dir s)"
    and hw: "readHighWaterMark (fst (snd (pushToClaudeTaskList (Some dir) projectId preferOpt
                                           prefixConfig nowMs d)))
                 = ps_hwm s"
    unfolding res
    by (cases prefixConfig; simp add: writeHighWaterMark_def readHighWaterMark_def)+
  have dist: "distinct (map tid ?listed)"
    by (rule listTasks_rows(1)[OF assms(1)])
  have rows: "\<forall>t \<in> set ?listed. getTask (tid t) (ps_db s0) = Some t"
    using listTasks_rows(2)[OF assms(1)] by (simp add: s0_def)
  have mapped: "\<forall>t \<in> set ?listed. \<exists>e m. existingByTodosId dir (tid t) = Some (e, m)
                   \<and> ct_id e @ ''.json'' \<in> fst ` set (json_files (ps_dir s0))"
  proof
    fix t
    assume "t \<in> set ?listed"
    with assms(2) obtain e m where "existingByTodosId dir (tid t) = Some (e, m)"
      "ct_id e @ ''.json'' \<in> fst ` set (json_files dir)"
      by blast
    then show "\<exists>e m. existingByTodosId dir (tid t) = Some (e, m)
                   \<and> ct_id e @ ''.json'' \<in> fst ` set (json_files (ps_dir s0))"
      by (simp add: s0_def)
  qed
  have others: "\<forall>t \<in> set ?listed. \<exists>e m. existingByTodosId dir (tid t) = Some (e, m)
                   \<and> (t \<noteq> task \<longrightarrow> ct_id e \<noteq> ct_id existing)"
  proof
    fix t
    assume "t \<in> set ?listed"
    with assms(2) obtain e m where "existingByTodosId dir (tid t) = Some (e, m)"
      "t \<noteq> task \<longrightarrow> ct_id e \<noteq> ct_id existing"
      by blast
    then show "\<exists>e m. existingByTodosId dir (tid t) = Some (e, m)
                   \<and> (t \<noteq> task \<longrightarrow> ct_id e \<noteq> ct_id existing)"
      by blast
  qed
  note counts = fold_pushTask_mapped[where existingMap = "existingByTodosId dir" and s = s0
                                       and ts = ?listed, OF dist rows mapped,
                                     of pref prefixConfig nowMs, folded s_def]
  have c1: "ps_pushed s = length (filter (\<lambda>t. \<not> (pref = Remote
                                      \<and> pushConflictDetected (existingByTodosId dir) t)) ?listed)"
    using counts by (simp add: s0_def)
  have c2: "ps_errors s = map conflictMessage
               (filter (\<lambda>t. pref = Remote \<and> pushConflictDetected (existingByTodosId dir) t) ?listed)"
    using counts by (simp add: s0_def)
  have c3: "ps_hwm s = readHighWaterMark dir"
    using counts by (simp add: s0_def)
  have c4: "map fst (json_files (ps_dir s)) = map fst (json_files dir)"
    using counts by (simp add: s0_def)
  have c5: "map_of (json_files (ps_dir s)) (ct_id existing @ ''.json'')
             = (if pref = Remote \<and> pushConflictDetected (existingByTodosId dir) task
                then map_of (json_files dir) (ct_id existing @ ''.json'')
                else Some \<lparr>content = Some (updatedRecord task existing), mtimeMs = of_int nowMs\<rparr>)"
    using fold_pushTask_file[where existingMap = "existingByTodosId dir" and s = s0
                               and ts = ?listed and task = task and existing = existing
                               and mtime = mtime,
                             OF dist rows others assms(3,4), of pref prefixConfig nowMs,
                             folded s_def]
    by (simp add: s0_def)
  have c6: "getTask (tid task)
               (snd (snd (pushToClaudeTaskList (Some dir) projectId preferOpt prefixConfig nowMs d)))
             = Some (if pushConflictDetected (existingByTodosId dir) task
                     then updateSets
                            (metadataInput (version task)
                               (appendSyncConflict (metadata task)
                                  (pushConflict pref (updated_at task) mtime nowMs) 5))
                            nowMs task
                     else task)"
    using pushToClaudeTaskList_row[OF assms(1,3,4), of preferOpt prefixConfig] assms(4)
    by (simp add: pushConflictDetected_def assms(5))
  have p: "pushed (fst (pushToClaudeTaskList (Some dir) projectId preferOpt prefixConfig nowMs d))
             = ps_pushed s"
    and q: "pulled (fst (pushToClaudeTaskList (Some dir) projectId preferOpt prefixConfig nowMs d)) = 0"
    and r: "errors (fst (pushToClaudeTaskList (Some dir) projectId preferOpt prefixConfig nowMs d))
             = ps_errors s"
    unfolding res by simp_all
  show ?thesis
    unfolding p r files hw using q c1 c2 c3 c4 c5 c6 by (intro conjI) 
qed

lemma listTasks_sampleDb:
  "listTasks (projectFilter None) 2000 sampleDb
     = ([sampleTask ''A'', sampleTask ''B'', sampleTask ''C''], sampleDb)"
  by (simp add: listTasks_def clearExpiredLocks_def sqlUpdate_def sampleDb_def
        sampleTask_def projectFilter_def filterMatches_def columnEquals_def truthy_def
        sqlLimitOffset_def sqlLess_def orderKey_def)

lemma numberToString_small:
  "numberToString 1 = ''1''" "numberToString 2 = ''2''" "numberToString 3 = ''3''"
  by (simp_all add: numberToString_def natToString.simps)

lemma first_push:
  "pushToClaudeTaskList None None None None 2000 sampleDb
     = (\<lparr>pushed = 3, pulled = 0, errors = []\<rparr>, pushedDir, pushedDb)"
  unfolding pushToClaudeTaskList_def listTasks_sampleDb Let_def
  by (simp add: existingByTodosId_def
        readHighWaterMark_def pushTask_def numberToString_small writeClaudeTask_def
        getTask_def sampleDb_def updateTask_def metadataInput_def sqlUpdate_def updateSets_def
        writeHighWaterMark_def pushedDir_def pushedDb_def pushedTask_def pushedFile_def pushedRecord_def
        sampleTask_def Let_def taskToClaudeTask_def)


lemma listTasks_pushedDb:
  "listTasks (projectFilter None) 3000 pushedDb
     = ([pushedTask ''A'' ''1'', pushedTask ''B'' ''2'', pushedTask ''C'' ''3''], pushedDb)"
  by (simp add: listTasks_def clearExpiredLocks_def sqlUpdate_def pushedDb_def sampleDb_def
        pushedTask_def sampleTask_def projectFilter_def filterMatches_def columnEquals_def
        truthy_def sqlLimitOffset_def sqlLess_def orderKey_def)

lemma pushedRecord_fields:
  "ct_id (pushedRecord i c) = c"
  "ct_metadata (pushedRecord i c) ''todos_id'' = Some (JStr i)"
  "parseTimestamp (ct_metadata (pushedRecord i c) ''todos_updated_at'') = Some 1000"
  by (simp_all add: pushedRecord_def taskToClaudeTask_def sampleTask_def)

lemma pushedTask_fields:
  "tid (pushedTask i c) = i" "updated_at (pushedTask i c) = 2000" "version (pushedTask i c) = 2"
  by (simp_all add: pushedTask_def sampleTask_def)

lemma existingByTodosId_pushedDir:
  "existingByTodosId pushedDir ''A'' = Some (pushedRecord ''A'' ''1'', Some 2000)"
  "existingByTodosId pushedDir ''B'' = Some (pushedRecord ''B'' ''2'', Some 2000)"
  "existingByTodosId pushedDir ''C'' = Some (pushedRecord ''C'' ''3'', Some 2000)"
  by (simp_all add: existingByTodosId_def pushedDir_def pushedFile_def getFileMtimeMs_def
        pushedRecord_fields)

lemma pushConflictDetected_pushedDir:
  "pushConflictDetected (existingByTodosId pushedDir) (pushedTask ''A'' ''1'')"
  "pushConflictDetected (existingByTodosId pushedDir) (pushedTask ''B'' ''2'')"
  "pushConflictDetected (existingByTodosId pushedDir) (pushedTask ''C'' ''3'')"
  by (simp_all add: pushConflictDetected_def pushedTask_fields existingByTodosId_pushedDir
        pushedRecord_fields conflictDetected_def)

text \<open>
  The amended C1 after the program's own first push. Pushing the sample store at the instant
  2000 into a directory that does not exist writes the records 1, 2 and 3 and stores the
  three mappings, which moves every task's \<open>updated_at\<close> to 2000 while the records carry
  1000. Pushing again at the instant 3000, with nothing changed in between, finds a conflict
  for every task: with the default preference it returns \<open>pushed = 0\<close> and three error
  lines, leaves the files as they were and moves task B to version 3; with the local
  preference it returns \<open>pushed = 3\<close> and writes the record of B again. On the task list
  whose record of task A carries the task's own \<open>updated_at\<close> no conflict is found: the pass
  at the instant 5000 writes the record again, returns \<open>pushed = 1\<close> and leaves the row of
  A as it was.
\<close>

theorem push_again_rewrites_witness:
  "pushToClaudeTaskList None None None None 2000 sampleDb
     = (\<lparr>pushed = 3, pulled = 0, errors = []\<rparr>, pushedDir, pushedDb)
   \<and> distinct (map tid (tasks pushedDb))
   \<and> fst (listTasks (projectFilter None) 3000 pushedDb)
       = [pushedTask ''A'' ''1'', pushedTask ''B'' ''2'', pushedTask ''C'' ''3'']
   \<and> existingByTodosId pushedDir (tid (pushedTask ''A'' ''1'')) = Some (pushedRecord ''A'' ''1'', Some 2000)
   \<and> existingByTodosId pushedDir (tid (pushedTask ''B'' ''2'')) = Some (pushedRecord ''B'' ''2'', Some 2000)
   \<and> existingByTodosId pushedDir (tid (pushedTask ''C'' ''3'')) = Some (pushedRecord ''C'' ''3'', Some 2000)
   \<and> map fst (json_files pushedDir) = [''1.json'', ''2.json'', ''3.json'']
   \<and> pushConflictDetected (existingByTodosId pushedDir) (pushedTask ''B'' ''2'')
   \<and> fst (pushToClaudeTaskList (Some pushedDir) None None None 3000 pushedDb)
       = \<lparr> pushed = 0, pulled = 0,
           errors = [''conflict push A: remote newer'', ''conflict push B: remote newer'',
                     ''conflict push C: remote newer''] \<rparr>
   \<and> map fst (json_files (fst (snd (pushToClaudeTaskList (Some pushedDir) None None None 3000
                                      pushedDb))))
       = [''1.json'', ''2.json'', ''3.json'']
   \<and> readHighWaterMark (fst (snd (pushToClaudeTaskList (Some pushedDir) None None None 3000
                                    pushedDb)))
       = 4
   \<and> map_of (json_files (fst (snd (pushToClaudeTaskList (Some pushedDir) None None None 3000
                                     pushedDb)))) ''2.json''
       = Some \<lparr>content = Some (pushedRecord ''B'' ''2''), mtimeMs = 2000\<rparr>
   \<and> map_option version
         (getTask ''B'' (snd (snd (pushToClaudeTaskList (Some pushedDir) None None None 3000
                                     pushedDb))))
       = Some 3
   \<and> fst (pushToClaudeTaskList (Some pushedDir) None (Some Local) None 3000 pushedDb)
       = \<lparr> pushed = 3, pulled = 0, errors = [] \<rparr>
   \<and> map_of (json_files (fst (snd (pushToClaudeTaskList (Some pushedDir) None (Some Local) None
                                     3000 pushedDb)))) ''2.json''
       = Some \<lparr>content = Some (updatedRecord (pushedTask ''B'' ''2'') (pushedRecord ''B'' ''2'')),
               mtimeMs = 3000\<rparr>
   \<and> distinct (map tid (tasks syncedDb))
   \<and> fst (listTasks (projectFilter None) 5000 syncedDb) = [mirroredTask]
   \<and> existingByTodosId syncedDir (tid mirroredTask) = Some (mirrorRecord, Some 1000)
   \<and> map fst (json_files syncedDir) = [''1.json'']
   \<and> \<not> pushConflictDetected (existingByTodosId syncedDir) mirroredTask
   \<and> fst (pushToClaudeTaskList (Some syncedDir) None None None 5000 syncedDb)
       = \<lparr> pushed = 1, pulled = 0, errors = [] \<rparr>
   \<and> map_of (json_files (fst (snd (pushToClaudeTaskList (Some syncedDir) None None None 5000
                                     syncedDb)))) ''1.json''
       = Some \<lparr>content = Some (updatedRecord mirroredTask mirrorRecord), mtimeMs = 5000\<rparr>
   \<and> getTask ''A'' (snd (snd (pushToClaudeTaskList (Some syncedDir) None None None 5000 syncedDb)))
       = Some mirroredTask"
proof -
  let ?A = "pushedTask ''A'' ''1''" and ?B = "pushedTask ''B'' ''2''" and ?C = "pushedTask ''C'' ''3''"
  have first: "pushToClaudeTaskList None None None None 2000 sampleDb
     = (\<lparr>pushed = 3, pulled = 0, errors = []\<rparr>, pushedDir, pushedDb)"
    by (rule first_push)
  have dist: "distinct (map tid (tasks pushedDb))"
    by (simp add: pushedDb_def pushedTask_fields)
  have l: "fst (listTasks (projectFilter None) 3000 pushedDb) = [?A, ?B, ?C]"
    by (simp add: listTasks_pushedDb)
  have eA: "existingByTodosId pushedDir (tid ?A) = Some (pushedRecord ''A'' ''1'', Some 2000)"
    and eB: "existingByTodosId pushedDir (tid ?B) = Some (pushedRecord ''B'' ''2'', Some 2000)"
    and eC: "existingByTodosId pushedDir (tid ?C) = Some (pushedRecord ''C'' ''3'', Some 2000)"
    by (simp_all add: pushedTask_fields existingByTodosId_pushedDir)
  have names: "map fst (json_files pushedDir) = [''1.json'', ''2.json'', ''3.json'']"
    by (simp add: pushedDir_def pushedFile_def)
  have cB: "pushConflictDetected (existingByTodosId pushedDir) ?B"
    by (rule pushConflictDetected_pushedDir)
  have mem: "?B \<in> set (fst (listTasks (projectFilter None) 3000 pushedDb))"
    by (simp add: l)
  have hyp: "\<forall>t \<in> set (fst (listTasks (projectFilter None) 3000 pushedDb)).
           \<exists>e m. existingByTodosId pushedDir (tid t) = Some (e, m)
                 \<and> ct_id e @ ''.json'' \<in> fst ` set (json_files pushedDir)
                 \<and> (t \<noteq> ?B \<longrightarrow> ct_id e \<noteq> ct_id (pushedRecord ''B'' ''2''))"
    unfolding l
    using eA eB eC by (simp add: pushedRecord_fields pushedDir_def pushedFile_def)
  note remote = push_again_rewrites[where d = pushedDb and dir = pushedDir and projectId = None
                  and nowMs = 3000 and task = ?B and existing = "pushedRecord ''B'' ''2''"
                  and mtime = "Some 2000" and preferOpt = None and pref = Remote
                  and prefixConfig = None, OF dist hyp mem eB]
  note loc = push_again_rewrites[where d = pushedDb and dir = pushedDir and projectId = None
                  and nowMs = 3000 and task = ?B and existing = "pushedRecord ''B'' ''2''"
                  and mtime = "Some 2000" and preferOpt = "Some Local" and pref = Local
                  and prefixConfig = None, OF dist hyp mem eB]
  have r1: "fst (pushToClaudeTaskList (Some pushedDir) None None None 3000 pushedDb)
       = \<lparr> pushed = 0, pulled = 0,
           errors = [''conflict push A: remote newer'', ''conflict push B: remote newer'',
                     ''conflict push C: remote newer''] \<rparr>"
    using remote
    by (simp add: l pushConflictDetected_pushedDir conflictMessage_def pushedTask_fields)
  have r2: "map fst (json_files (fst (snd (pushToClaudeTaskList (Some pushedDir) None None None 3000
                                      pushedDb))))
       = [''1.json'', ''2.json'', ''3.json'']"
    using remote names by simp
  have r3: "readHighWaterMark (fst (snd (pushToClaudeTaskList (Some pushedDir) None None None 3000
                                    pushedDb)))
       = 4"
    using remote by (simp add: readHighWaterMark_def pushedDir_def)
  have r4: "map_of (json_files (fst (snd (pushToClaudeTaskList (Some pushedDir) None None None 3000
                                     pushedDb)))) ''2.json''
       = Some \<lparr>content = Some (pushedRecord ''B'' ''2''), mtimeMs = 2000\<rparr>"
    using remote cB by (simp add: pushedRecord_fields pushedDir_def pushedFile_def)
  have r5: "map_option version
         (getTask ''B'' (snd (snd (pushToClaudeTaskList (Some pushedDir) None None None 3000
                                     pushedDb))))
       = Some 3"
    using remote cB by (simp add: pushedTask_fields updateSets_def)
  have r6: "fst (pushToClaudeTaskList (Some pushedDir) None (Some Local) None 3000 pushedDb)
       = \<lparr> pushed = 3, pulled = 0, errors = [] \<rparr>"
    using loc by (simp add: l)
  have r7: "map_of (json_files (fst (snd (pushToClaudeTaskList (Some pushedDir) None (Some Local) None
                                     3000 pushedDb)))) ''2.json''
       = Some \<lparr>content = Some (updatedRecord (pushedTask ''B'' ''2'') (pushedRecord ''B'' ''2'')),
               mtimeMs = 3000\<rparr>"
    using loc by (simp add: pushedRecord_fields)
  have dist2: "distinct (map tid (tasks syncedDb))" by (simp add: syncedDb_def)
  have l2: "fst (listTasks (projectFilter None) 5000 syncedDb) = [mirroredTask]"
    by (simp add: listTasks_syncedDb)
  have tA: "tid mirroredTask = ''A''" by (simp add: mirroredTask_def sampleTask_def)
  have e2: "existingByTodosId syncedDir (tid mirroredTask) = Some (mirrorRecord, Some 1000)"
    by (simp add: existingByTodosId_syncedDir tA)
  have names2: "map fst (json_files syncedDir) = [''1.json'']"
    by (simp add: syncedDir_def)
  have nc: "\<not> pushConflictDetected (existingByTodosId syncedDir) mirroredTask"
  proof -
    have u: "updated_at mirroredTask = 1000" by (simp add: mirroredTask_def sampleTask_def)
    show ?thesis
      unfolding pushConflictDetected_def e2
      by (simp add: mirrorRecord_fields conflictDetected_def u)
  qed
  have mem2: "mirroredTask \<in> set (fst (listTasks (projectFilter None) 5000 syncedDb))"
    by (simp add: l2)
  have hyp2: "\<forall>t \<in> set (fst (listTasks (projectFilter None) 5000 syncedDb)).
           \<exists>e m. existingByTodosId syncedDir (tid t) = Some (e, m)
                 \<and> ct_id e @ ''.json'' \<in> fst ` set (json_files syncedDir)
                 \<and> (t \<noteq> mirroredTask \<longrightarrow> ct_id e \<noteq> ct_id mirrorRecord)"
    unfolding l2 using e2 by (simp add: mirrorRecord_fields syncedDir_def)
  note sync = push_again_rewrites[where d = syncedDb and dir = syncedDir and projectId = None
                  and nowMs = 5000 and task = mirroredTask and existing = mirrorRecord
                  and mtime = "Some 1000" and preferOpt = None and pref = Remote
                  and prefixConfig = None, OF dist2 hyp2 mem2 e2]
  have r8: "fst (pushToClaudeTaskList (Some syncedDir) None None None 5000 syncedDb)
       = \<lparr> pushed = 1, pulled = 0, errors = [] \<rparr>"
    using sync nc by (simp add: l2)
  have r9: "map_of (json_files (fst (snd (pushToClaudeTaskList (Some syncedDir) None None None 5000
                                     syncedDb)))) ''1.json''
       = Some \<lparr>content = Some (updatedRecord mirroredTask mirrorRecord), mtimeMs = 5000\<rparr>"
    using sync nc by (simp add: mirrorRecord_fields)
  have r10: "getTask ''A'' (snd (snd (pushToClaudeTaskList (Some syncedDir) None None None 5000 syncedDb)))
       = Some mirroredTask"
    using sync nc by (simp add: tA)
  show ?thesis
    by (intro conjI first dist l eA eB eC names cB r1 r2 r3 r4 r5 r6 r7
          dist2 l2 e2 names2 nc r8 r9 r10)
qed

text \<open>
  Claim C1 as stated fails. On the sample task list nothing changed since the previous sync:
  the record of task A carries the task's \<open>updated_at\<close> as last-synced timestamp and the
  file is not newer. Running the push pass again returns \<open>pushed = 1\<close>, not 0: the loop
  rewrites every mapped record and counts it.
\<close>

theorem push_again_counterexample:
  "fst (listTasks (projectFilter None) 5000 syncedDb) = [mirroredTask]
   \<and> existingByTodosId syncedDir (tid mirroredTask) = Some (mirrorRecord, Some 1000)
   \<and> parseTimestamp (ct_metadata mirrorRecord ''todos_updated_at'') = Some (updated_at mirroredTask)
   \<and> updated_at mirroredTask = 1000
   \<and> pushed (fst (pushToClaudeTaskList (Some syncedDir) None None None 5000 syncedDb)) = 1
   \<and> pushed (fst (pushToClaudeTaskList (Some syncedDir) None None None 5000 syncedDb)) \<noteq> 0"
proof -
  have l: "fst (listTasks (projectFilter None) 5000 syncedDb) = [mirroredTask]"
    by (simp add: listTasks_syncedDb)
  have e: "existingByTodosId syncedDir (tid mirroredTask) = Some (mirrorRecord, Some 1000)"
    by (simp add: existingByTodosId_syncedDir mirroredTask_def sampleTask_def)
  have p: "parseTimestamp (ct_metadata mirrorRecord ''todos_updated_at'') = Some (updated_at mirroredTask)"
    by (simp add: mirrorRecord_fields mirroredTask_def sampleTask_def)
  have u: "updated_at mirroredTask = 1000" by (simp add: mirroredTask_def sampleTask_def)
  have n: "ct_id mirrorRecord @ ''.json'' \<in> fst ` set (json_files syncedDir)"
    by (simp add: mirrorRecord_fields syncedDir_def)
  have pre: "\<forall>task \<in> set (fst (listTasks (projectFilter None) 5000 syncedDb)).
             \<exists>existing mtime.
               existingByTodosId syncedDir (tid task) = Some (existing, mtime)
               \<and> parseTimestamp (ct_metadata existing ''todos_updated_at'') = Some (updated_at task)
               \<and> ct_id existing @ ''.json'' \<in> fst ` set (json_files syncedDir)"
    using e p n by (simp add: l)
  from pushToClaudeTaskList_in_sync[OF pre, of None None]
  have "pushed (fst (pushToClaudeTaskList (Some syncedDir) None None None 5000 syncedDb)) = 1"
    by (simp add: l)
  with l e p u show ?thesis by simp
qed

end
